theory Spec2Isabelle
  imports Main "HOL-Library.Multiset"
begin

section \<open>JavaScript values read by the normalizer\<close>

text \<open>
  The program is dynamically typed. The model gives each value the normalizer inspects a
  small datatype that keeps exactly the distinctions the code tests: truthiness,
  \<^verbatim>\<open>typeof v === 'string'\<close>, the presence of a \<^verbatim>\<open>toBase58\<close> method, and
  \<^verbatim>\<open>Array.isArray\<close>. A property that is \<^verbatim>\<open>undefined\<close> is \<open>None\<close>.
\<close>

text \<open>
  A scalar inside a decoded \<^verbatim>\<open>info\<close> object: a string or a non-negative integer number.
\<close>

datatype jsval = JStr string | JNum nat

fun truthy :: "jsval \<Rightarrow> bool" where
  "truthy (JStr s) = (s \<noteq> [])"
| "truthy (JNum n) = (n \<noteq> 0)"

definition digit_char :: "nat \<Rightarrow> char" where
  "digit_char d = ''0123456789'' ! d"

text \<open>
  \<^verbatim>\<open>String(n)\<close> for a non-negative integer below \<open>2 ^ 53\<close>: its decimal digits. (A
  larger number is a rounded double, of which JavaScript prints the shortest digits that
  read back as the same double; \<open>JNum\<close> is not meant for those.)
\<close>

fun show_nat :: "nat \<Rightarrow> string" where
  "show_nat n = (if n < 10 then [digit_char n] else show_nat (n div 10) @ [digit_char (n mod 10)])"

declare show_nat.simps [simp del]

text \<open>What a template literal \<^verbatim>\<open>`${v}`\<close> inserts.\<close>

fun to_string :: "jsval \<Rightarrow> string" where
  "to_string (JStr s) = s"
| "to_string (JNum n) = show_nat n"

text \<open>
  An account key or program id as a provider hands it over: \<open>PublicKey s\<close> is an object
  with a \<^verbatim>\<open>toBase58\<close> method returning \<open>s\<close> (always truthy); \<open>KeyString s\<close> is any
  value without that method whose \<^verbatim>\<open>toString()\<close> is \<open>s\<close>, the empty string being the
  falsy one (a key read back from the JSON cache is such a string).
\<close>

datatype key_value = PublicKey string | KeyString string

fun key_truthy :: "key_value \<Rightarrow> bool" where
  "key_truthy (PublicKey s) = True"
| "key_truthy (KeyString s) = (s \<noteq> [])"

text \<open>\<^verbatim>\<open>(typeof pk.toBase58 === 'function') ? pk.toBase58() : pk.toString()\<close>\<close>

fun key_str :: "key_value \<Rightarrow> string" where
  "key_str (PublicKey s) = s"
| "key_str (KeyString s) = s"

text \<open>
  \<^verbatim>\<open>accountKeys[i]\<close> when it is truthy; an index past the end reads \<^verbatim>\<open>undefined\<close>.
\<close>

definition key_at :: "key_value list \<Rightarrow> nat \<Rightarrow> key_value option" where
  "key_at accountKeys i =
     (if i < length accountKeys \<and> key_truthy (accountKeys ! i) then Some (accountKeys ! i)
      else None)"

section \<open>The raw transaction\<close>

record parsed_instr =
  ptype :: "string option"
  info :: "(string \<rightharpoonup> jsval) option"

datatype data_value = DataString string | DataBuffer string | DataOther

record raw_instr =
  programId :: "key_value option"
  program :: "string option"
  programIdIndex :: "nat option"
  parsed :: "parsed_instr option"
  accounts :: "nat list option"
  data :: "data_value option"

record header =
  numRequiredSignatures :: "nat option"
  numReadonlySignedAccounts :: "nat option"
  numReadonlyUnsignedAccounts :: "nat option"

record message =
  instructions :: "raw_instr list option"
  accountKeys :: "key_value list option"
  header :: "header option"

record transaction =
  t_message :: "message option"
  t_instructions :: "raw_instr list option"

text \<open>
  The fetched object: its \<^verbatim>\<open>transaction\<close> and \<^verbatim>\<open>message\<close> properties, and \<open>top\<close>, its own
  \<^verbatim>\<open>instructions\<close>, \<^verbatim>\<open>accountKeys\<close> and \<^verbatim>\<open>header\<close> properties, read when the object
  itself is used as the message.
\<close>

record raw_tx =
  transaction :: "transaction option"
  r_message :: "message option"
  top :: message

section \<open>The canonical transaction\<close>

record account_ref =
  pubkey :: string
  isSigner :: bool
  isWritable :: bool

record instruction =
  d_programId :: string
  description :: string
  keys :: "account_ref list"
  d_data :: string

text \<open>
  What \<^verbatim>\<open>decompileToTS\<close> computes: the \<open>kind\<close> and the four parameters it hands to the
  renderer (\<^verbatim>\<open>sig\<close>, \<^verbatim>\<open>instructions\<close>, \<^verbatim>\<open>accounts\<close>, \<^verbatim>\<open>computeBudget\<close>). The rendered
  text itself is a function of these four and is not modelled.
\<close>

record decompiled =
  kind :: string
  ts_sig :: string
  ts_instructions :: "instruction list"
  ts_accounts :: "string list"
  ts_computeBudget :: "jsval option"

datatype error =
    TypeError
  | FetchFailed string nat
  | StartSignatureNotFound string
  | InvalidEndpoint

section \<open>Constants of the source\<close>

definition SYSTEM_PROGRAM :: string where
  "SYSTEM_PROGRAM = ''11111111111111111111111111111111''"

definition TOKEN_PROGRAM :: string where
  "TOKEN_PROGRAM = ''TokenkegQfeZyiNwAJbNbGKPFXCWuBvf9Ss623VQ5DA''"

definition COMPUTE_BUDGET_PROGRAM :: string where
  "COMPUTE_BUDGET_PROGRAM = ''ComputeBudget111111111111111111111111111111''"

definition MEMO_PROGRAM_IDS :: "string set" where
  "MEMO_PROGRAM_IDS =
     {''MemoSq4gqABAXKb96qnH8TysNcWxMyWCqXgDLGmfcHr'',
      ''Memo1UhkJBfCR961GD3xbN1T1YQC7kFpFHJBF7bxTpN''}"

section \<open>The normalizer: \<^verbatim>\<open>decompileToTS\<close> of src/extract\_and\_decompile\_public\_rpc.js\<close>

text \<open>\<^verbatim>\<open>parsed?.transaction?.message || parsed?.message || parsed\<close>\<close>

definition message_of :: "raw_tx \<Rightarrow> message" where
  "message_of p =
     (case (case transaction p of None \<Rightarrow> None | Some t \<Rightarrow> t_message t) of
        Some m \<Rightarrow> m
      | None \<Rightarrow> (case r_message p of Some m \<Rightarrow> m | None \<Rightarrow> top p))"

text \<open>
  \<^verbatim>\<open>message?.instructions || parsed?.transaction?.instructions || []\<close>; an array is truthy
  even when empty.
\<close>

definition instructions_of :: "raw_tx \<Rightarrow> raw_instr list" where
  "instructions_of p =
     (case instructions (message_of p) of
        Some ins \<Rightarrow> ins
      | None \<Rightarrow>
          (case (case transaction p of None \<Rightarrow> None | Some t \<Rightarrow> t_instructions t) of
             Some ins \<Rightarrow> ins
           | None \<Rightarrow> []))"

text \<open>\<^verbatim>\<open>message?.accountKeys || []\<close>\<close>

definition accountKeys_of :: "raw_tx \<Rightarrow> key_value list" where
  "accountKeys_of p = (case accountKeys (message_of p) of Some ks \<Rightarrow> ks | None \<Rightarrow> [])"

text \<open>\<^verbatim>\<open>x || 0\<close> on a count of the header.\<close>

definition or0 :: "nat option \<Rightarrow> int" where
  "or0 x = (case x of None \<Rightarrow> 0 | Some n \<Rightarrow> int n)"

text \<open>\<^verbatim>\<open>const header = message?.header || {}; header.numRequiredSignatures || 0\<close>\<close>

definition numSigners :: "message \<Rightarrow> int" where
  "numSigners m = (case header m of None \<Rightarrow> 0 | Some h \<Rightarrow> or0 (numRequiredSignatures h))"

text \<open>
  \<^verbatim>\<open>accountKeys.length - (header.numReadonlySignedAccounts || 0)
     - (header.numReadonlyUnsignedAccounts || 0)\<close>, a JavaScript number that may be negative.
\<close>

definition numWritable :: "message \<Rightarrow> key_value list \<Rightarrow> int" where
  "numWritable m aks =
     (case header m of
        None \<Rightarrow> int (length aks)
      | Some h \<Rightarrow>
          int (length aks) - or0 (numReadonlySignedAccounts h)
            - or0 (numReadonlyUnsignedAccounts h))"

text \<open>
  The chain of lines 230-243 that resolves \<^verbatim>\<open>programId\<close>; \<open>None\<close> is the final
  \<^verbatim>\<open>continue\<close>. \<open>programId_fallback\<close> is the part of the chain after the two tests of
  \<^verbatim>\<open>instr.programId\<close>.
\<close>

definition programId_fallback :: "key_value list \<Rightarrow> raw_instr \<Rightarrow> string option" where
  "programId_fallback aks instr =
     (if program instr = Some ''system'' then Some SYSTEM_PROGRAM
      else
        (case (case programIdIndex instr of None \<Rightarrow> None | Some i \<Rightarrow> key_at aks i) of
           Some pk \<Rightarrow> Some (key_str pk)
         | None \<Rightarrow>
             (case program instr of
                Some p \<Rightarrow> if p \<noteq> [] then Some p else None
              | None \<Rightarrow> None)))"

definition programId_of :: "key_value list \<Rightarrow> raw_instr \<Rightarrow> string option" where
  "programId_of aks instr =
     (case programId instr of
        Some (PublicKey s) \<Rightarrow> Some s
      | Some (KeyString s) \<Rightarrow> if s \<noteq> [] then Some s else programId_fallback aks instr
      | None \<Rightarrow> programId_fallback aks instr)"

text \<open>
  \<^verbatim>\<open>if (v) description += ...\<close> for a field of \<^verbatim>\<open>info\<close>, with the text before and after
  the value.
\<close>

definition append_field :: "jsval option \<Rightarrow> string \<Rightarrow> string \<Rightarrow> string \<Rightarrow> string" where
  "append_field v pre post d =
     (case v of
        None \<Rightarrow> d
      | Some x \<Rightarrow> if truthy x then d @ pre @ to_string x @ post else d)"

text \<open>
  The description of an instruction that has \<^verbatim>\<open>instr.parsed\<close> (lines 256-262).
  \<^verbatim>\<open>info.mint.slice(0, 8)\<close> on a truthy number is a TypeError.
\<close>

definition describe_parsed :: "parsed_instr \<Rightarrow> error + string" where
  "describe_parsed p =
     (let d0 = (case ptype p of
                  None \<Rightarrow> ''parsed instruction''
                | Some t \<Rightarrow> if t \<noteq> [] then t else ''parsed instruction'')
      in case info p of
           None \<Rightarrow> Inr d0
         | Some fs \<Rightarrow>
             (let d1 = append_field (fs ''lamports'') '' ('' '' lamports)'' d0;
                  d2 = append_field (fs ''amount'') '' (amount: '' '')'' d1
              in case fs ''mint'' of
                   None \<Rightarrow> Inr d2
                 | Some (JStr m) \<Rightarrow>
                     Inr (if m \<noteq> [] then d2 @ '' (mint: '' @ take 8 m @ ''...)'' else d2)
                 | Some (JNum n) \<Rightarrow> if n \<noteq> 0 then Inl TypeError else Inr d2))"

definition description_of :: "raw_instr \<Rightarrow> string \<Rightarrow> error + string" where
  "description_of instr pid =
     (case parsed instr of
        Some p \<Rightarrow> describe_parsed p
      | None \<Rightarrow>
          Inr (if pid \<in> MEMO_PROGRAM_IDS then ''Memo''
               else if pid = SYSTEM_PROGRAM then ''System instruction''
               else if pid = TOKEN_PROGRAM then ''SPL Token instruction''
               else ''Program '' @ take 8 pid @ ''... instruction''))"

text \<open>
  The loop over \<^verbatim>\<open>instr.accounts\<close> (lines 276-292): the keys pushed, in order. An index
  whose account key is missing or falsy is passed over.
\<close>

definition index_keys :: "message \<Rightarrow> key_value list \<Rightarrow> nat list \<Rightarrow> account_ref list" where
  "index_keys m aks idxs =
     concat (map (\<lambda>accIdx.
        (case key_at aks accIdx of
           None \<Rightarrow> []
         | Some pk \<Rightarrow>
             [\<lparr>pubkey = key_str pk,
               isSigner = (int accIdx < numSigners m),
               isWritable = (int accIdx < numWritable m aks)\<rparr>])) idxs)"

text \<open>The table \<^verbatim>\<open>accountFields\<close> (lines 296-308).\<close>

definition accountFields :: "(string \<times> bool \<times> bool) list" where
  "accountFields =
     [(''source'', True, True),
      (''destination'', False, True),
      (''owner'', True, False),
      (''authority'', True, False),
      (''mint'', False, True),
      (''account'', False, True),
      (''tokenAccount'', False, True),
      (''multisigAuthority'', False, False),
      (''newAccount'', False, True),
      (''fromPubkey'', True, True),
      (''toPubkey'', False, True)]"

text \<open>
  The loop over \<^verbatim>\<open>accountFields\<close> (lines 310-319):
  \<^verbatim>\<open>if (info[field] && typeof info[field] === 'string')\<close>.
\<close>

definition field_keys :: "(string \<rightharpoonup> jsval) \<Rightarrow> account_ref list" where
  "field_keys fs =
     concat (map (\<lambda>(field, s, w).
        (case fs field of
           Some (JStr a) \<Rightarrow>
             if a \<noteq> [] then [\<lparr>pubkey = a, isSigner = s, isWritable = w\<rparr>] else []
         | _ \<Rightarrow> [])) accountFields)"

definition keys_of :: "message \<Rightarrow> key_value list \<Rightarrow> raw_instr \<Rightarrow> account_ref list" where
  "keys_of m aks instr =
     (case accounts instr of
        Some idxs \<Rightarrow> index_keys m aks idxs
      | None \<Rightarrow>
          (case (case parsed instr of None \<Rightarrow> None | Some p \<Rightarrow> info p) of
             Some fs \<Rightarrow> field_keys fs
           | None \<Rightarrow> []))"

text \<open>
  Lines 322-329. A buffer is given by its base64 text; any other truthy value leaves
  \<^verbatim>\<open>data\<close> empty.
\<close>

definition data_of :: "raw_instr \<Rightarrow> string" where
  "data_of instr =
     (case data instr of
        Some (DataString s) \<Rightarrow> s
      | Some (DataBuffer b) \<Rightarrow> b
      | _ \<Rightarrow> [])"

text \<open>\<^verbatim>\<open>uniqueAccounts.add(x)\<close>: a JavaScript Set keeps insertion order.\<close>

definition set_add :: "string \<Rightarrow> string list \<Rightarrow> string list" where
  "set_add x xs = (if x \<in> set xs then xs else xs @ [x])"

text \<open>The three variables the loop of lines 228-337 updates.\<close>

record loop_state =
  uniqueAccounts :: "string list"
  detailedInstructions :: "instruction list"
  computeBudget :: "jsval option"

text \<open>\<^verbatim>\<open>instr.parsed.info?.units || 200000\<close>\<close>

definition units_of :: "parsed_instr \<Rightarrow> jsval" where
  "units_of p =
     (case (case info p of None \<Rightarrow> None | Some fs \<Rightarrow> fs ''units'') of
        Some u \<Rightarrow> if truthy u then u else JNum 200000
      | None \<Rightarrow> JNum 200000)"

text \<open>Lines 247-252, after the program id was added to \<^verbatim>\<open>uniqueAccounts\<close>.\<close>

definition compute_budget_step :: "raw_instr \<Rightarrow> loop_state \<Rightarrow> loop_state" where
  "compute_budget_step instr st =
     (case parsed instr of
        Some p \<Rightarrow>
          if ptype p = Some ''setComputeUnitLimit''
          then st\<lparr>computeBudget := Some (units_of p)\<rparr> else st
      | None \<Rightarrow> st)"

text \<open>One iteration of the loop.\<close>

definition step :: "message \<Rightarrow> key_value list \<Rightarrow> raw_instr \<Rightarrow> loop_state \<Rightarrow> error + loop_state" where
  "step m aks instr st =
     (case programId_of aks instr of
        None \<Rightarrow> Inr st
      | Some pid \<Rightarrow>
          (let st1 = st\<lparr>uniqueAccounts := set_add pid (uniqueAccounts st)\<rparr>
           in if pid = COMPUTE_BUDGET_PROGRAM then Inr (compute_budget_step instr st1)
              else
                (case description_of instr pid of
                   Inl e \<Rightarrow> Inl e
                 | Inr d \<Rightarrow>
                     (let ks = keys_of m aks instr
                      in Inr (st1\<lparr>uniqueAccounts := foldl (\<lambda>u k. set_add (pubkey k) u)
                                      (uniqueAccounts st1) ks,
                                    detailedInstructions := detailedInstructions st1 @
                                      [\<lparr>d_programId = pid, description = d, keys = ks,
                                        d_data = data_of instr\<rparr>]\<rparr>)))))"

fun loop :: "message \<Rightarrow> key_value list \<Rightarrow> raw_instr list \<Rightarrow> loop_state \<Rightarrow> error + loop_state" where
  "loop m aks [] st = Inr st"
| "loop m aks (instr # rest) st =
     (case step m aks instr st of
        Inl e \<Rightarrow> Inl e
      | Inr st' \<Rightarrow> loop m aks rest st')"

text \<open>Lines 339-348.\<close>

definition kind_of :: "instruction list \<Rightarrow> string" where
  "kind_of ds =
     (if length ds = 1 then
        (let pid = d_programId (ds ! 0)
         in if pid = SYSTEM_PROGRAM then ''system''
            else if pid = TOKEN_PROGRAM then ''spl-token''
            else if pid \<in> MEMO_PROGRAM_IDS then ''memo''
            else ''program'')
      else if length ds > 1 then ''multi-'' @ show_nat (length ds)
      else ''complex'')"

definition init_state :: loop_state where
  "init_state = \<lparr>uniqueAccounts = [], detailedInstructions = [], computeBudget = None\<rparr>"

text \<open>
  \<^verbatim>\<open>decompileToTS(sig, parsed)\<close>: \<open>Inr None\<close> is the \<^verbatim>\<open>return null\<close> of line 220,
  \<open>Inl\<close> a thrown error.
\<close>

definition decompileToTS :: "string \<Rightarrow> raw_tx \<Rightarrow> error + decompiled option" where
  "decompileToTS sig p =
     (let m = message_of p; ins = instructions_of p
      in if ins = [] then Inr None
         else
           (case loop m (accountKeys_of p) ins init_state of
              Inl e \<Rightarrow> Inl e
            | Inr st \<Rightarrow>
                Inr (Some \<lparr>kind = kind_of (detailedInstructions st),
                           ts_sig = sig,
                           ts_instructions = detailedInstructions st,
                           ts_accounts = uniqueAccounts st,
                           ts_computeBudget = computeBudget st\<rparr>)))"

section \<open>The earlier normalizer: \<^verbatim>\<open>decompileToTS\<close> of src/unnamed/part\_000\<close>

text \<open>
  The second copy of \<^verbatim>\<open>decompileToTS\<close> differs from the first in four places: the end of
  the program-id chain, the memo test of the description, \<^verbatim>\<open>numWritable\<close>, and the memo
  test of the kind. Each of these is translated again below, with the suffix \<open>_part000\<close>;
  the pieces that read the same in both files are shared.
\<close>

text \<open>\<^verbatim>\<open>s.startsWith(t)\<close> and \<^verbatim>\<open>s.includes(t)\<close>\<close>

fun startsWith :: "string \<Rightarrow> string \<Rightarrow> bool" where
  "startsWith s [] = True"
| "startsWith [] (c # cs) = False"
| "startsWith (x # xs) (c # cs) = (x = c \<and> startsWith xs cs)"

fun str_includes :: "string \<Rightarrow> string \<Rightarrow> bool" where
  "str_includes [] t = (t = [])"
| "str_includes (x # xs) t = (startsWith (x # xs) t \<or> str_includes xs t)"

text \<open>
  The chain ends in \<^verbatim>\<open>programId = instr.program || 'unknown'\<close>: no instruction is passed
  over.
\<close>

definition programId_fallback_part000 :: "key_value list \<Rightarrow> raw_instr \<Rightarrow> string" where
  "programId_fallback_part000 aks instr =
     (if program instr = Some ''system'' then SYSTEM_PROGRAM
      else
        (case (case programIdIndex instr of None \<Rightarrow> None | Some i \<Rightarrow> key_at aks i) of
           Some pk \<Rightarrow> key_str pk
         | None \<Rightarrow>
             (case program instr of
                Some p \<Rightarrow> if p \<noteq> [] then p else ''unknown''
              | None \<Rightarrow> ''unknown'')))"

definition programId_of_part000 :: "key_value list \<Rightarrow> raw_instr \<Rightarrow> string" where
  "programId_of_part000 aks instr =
     (case programId instr of
        Some (PublicKey s) \<Rightarrow> s
      | Some (KeyString s) \<Rightarrow> if s \<noteq> [] then s else programId_fallback_part000 aks instr
      | None \<Rightarrow> programId_fallback_part000 aks instr)"

definition description_of_part000 :: "raw_instr \<Rightarrow> string \<Rightarrow> error + string" where
  "description_of_part000 instr pid =
     (case parsed instr of
        Some p \<Rightarrow> describe_parsed p
      | None \<Rightarrow>
          Inr (if str_includes pid ''Memo'' then ''Memo''
               else if pid = SYSTEM_PROGRAM then ''System instruction''
               else if pid = TOKEN_PROGRAM then ''SPL Token instruction''
               else ''Program '' @ take 8 pid @ ''... instruction''))"

text \<open>
  \<^verbatim>\<open>numSigners + (accountKeys.length - (header.numReadonlySignedAccounts || 0)
     - (header.numReadonlyUnsignedAccounts || 0))\<close>
\<close>

definition numWritable_part000 :: "message \<Rightarrow> key_value list \<Rightarrow> int" where
  "numWritable_part000 m aks =
     numSigners m +
     (case header m of
        None \<Rightarrow> int (length aks)
      | Some h \<Rightarrow>
          int (length aks) - or0 (numReadonlySignedAccounts h)
            - or0 (numReadonlyUnsignedAccounts h))"

definition index_keys_part000 :: "message \<Rightarrow> key_value list \<Rightarrow> nat list \<Rightarrow> account_ref list" where
  "index_keys_part000 m aks idxs =
     concat (map (\<lambda>accIdx.
        (case key_at aks accIdx of
           None \<Rightarrow> []
         | Some pk \<Rightarrow>
             [\<lparr>pubkey = key_str pk,
               isSigner = (int accIdx < numSigners m),
               isWritable = (int accIdx < numWritable_part000 m aks)\<rparr>])) idxs)"

definition keys_of_part000 :: "message \<Rightarrow> key_value list \<Rightarrow> raw_instr \<Rightarrow> account_ref list" where
  "keys_of_part000 m aks instr =
     (case accounts instr of
        Some idxs \<Rightarrow> index_keys_part000 m aks idxs
      | None \<Rightarrow>
          (case (case parsed instr of None \<Rightarrow> None | Some p \<Rightarrow> info p) of
             Some fs \<Rightarrow> field_keys fs
           | None \<Rightarrow> []))"

definition step_part000 ::
  "message \<Rightarrow> key_value list \<Rightarrow> raw_instr \<Rightarrow> loop_state \<Rightarrow> error + loop_state" where
  "step_part000 m aks instr st =
     (let pid = programId_of_part000 aks instr;
          st1 = st\<lparr>uniqueAccounts := set_add pid (uniqueAccounts st)\<rparr>
      in if pid = COMPUTE_BUDGET_PROGRAM then Inr (compute_budget_step instr st1)
         else
           (case description_of_part000 instr pid of
              Inl e \<Rightarrow> Inl e
            | Inr d \<Rightarrow>
                (let ks = keys_of_part000 m aks instr
                 in Inr (st1\<lparr>uniqueAccounts := foldl (\<lambda>u k. set_add (pubkey k) u)
                                 (uniqueAccounts st1) ks,
                               detailedInstructions := detailedInstructions st1 @
                                 [\<lparr>d_programId = pid, description = d, keys = ks,
                                   d_data = data_of instr\<rparr>]\<rparr>))))"

fun loop_part000 ::
  "message \<Rightarrow> key_value list \<Rightarrow> raw_instr list \<Rightarrow> loop_state \<Rightarrow> error + loop_state" where
  "loop_part000 m aks [] st = Inr st"
| "loop_part000 m aks (instr # rest) st =
     (case step_part000 m aks instr st of
        Inl e \<Rightarrow> Inl e
      | Inr st' \<Rightarrow> loop_part000 m aks rest st')"

definition kind_of_part000 :: "instruction list \<Rightarrow> string" where
  "kind_of_part000 ds =
     (if length ds = 1 then
        (let pid = d_programId (ds ! 0)
         in if pid = SYSTEM_PROGRAM then ''system''
            else if pid = TOKEN_PROGRAM then ''spl-token''
            else if str_includes pid ''Memo'' then ''memo''
            else ''program'')
      else if length ds > 1 then ''multi-'' @ show_nat (length ds)
      else ''complex'')"

definition decompileToTS_part000 :: "string \<Rightarrow> raw_tx \<Rightarrow> error + decompiled option" where
  "decompileToTS_part000 sig p =
     (let m = message_of p; ins = instructions_of p
      in if ins = [] then Inr None
         else
           (case loop_part000 m (accountKeys_of p) ins init_state of
              Inl e \<Rightarrow> Inl e
            | Inr st \<Rightarrow>
                Inr (Some \<lparr>kind = kind_of_part000 (detailedInstructions st),
                           ts_sig = sig,
                           ts_instructions = detailedInstructions st,
                           ts_accounts = uniqueAccounts st,
                           ts_computeBudget = computeBudget st\<rparr>)))"

section \<open>The fetch client: \<^verbatim>\<open>nextRpc\<close>, the cache and \<^verbatim>\<open>fetchParsedTx\<close>\<close>

subsection \<open>The numbers of the back-off\<close>

text \<open>
  The back-off is computed in doubles. The model follows a double where it is an exact
  integer or \<^verbatim>\<open>Infinity\<close>: \<open>Exact v\<close> is the double of the integer value \<open>v\<close>,
  \<open>PosInfinity\<close> is \<^verbatim>\<open>Infinity\<close>, and \<open>Inexact\<close> is any other number (a power or a product
  that had to be rounded, or \<^verbatim>\<open>NaN\<close>), which the model does not determine.
\<close>

datatype jsnum = Exact nat | Inexact | PosInfinity

text \<open>
  A non-negative integer is a double exactly when it is below \<open>2 ^ 1024\<close> and what is
  left of it after dividing out every factor 2 fits the 53 bits of the significand.
\<close>

fun odd_part :: "nat \<Rightarrow> nat" where
  "odd_part n = (if n = 0 \<or> odd n then n else odd_part (n div 2))"

declare odd_part.simps [simp del]

definition representable :: "nat \<Rightarrow> bool" where
  "representable v = (v < 2 ^ 1024 \<and> odd_part v < 2 ^ 53)"

text \<open>
  The double an operation returns when its exact result is the integer \<open>v\<close>: \<open>v\<close>
  itself when that is a double, \<^verbatim>\<open>Infinity\<close> from \<open>2 ^ 1024\<close> on.
\<close>

definition to_double :: "nat \<Rightarrow> jsnum" where
  "to_double v =
     (if representable v then Exact v else if 2 ^ 1024 \<le> v then PosInfinity else Inexact)"

text \<open>\<^verbatim>\<open>Math.pow(b, n)\<close> for non-negative integers.\<close>

definition js_pow :: "nat \<Rightarrow> nat \<Rightarrow> jsnum" where
  "js_pow b n = to_double (b ^ n)"

text \<open>\<^verbatim>\<open>a * x\<close> for a non-negative integer \<open>a\<close>; \<^verbatim>\<open>0 * Infinity\<close> is \<^verbatim>\<open>NaN\<close>.\<close>

definition js_times :: "nat \<Rightarrow> jsnum \<Rightarrow> jsnum" where
  "js_times a x =
     (case x of
        Exact v \<Rightarrow> to_double (a * v)
      | Inexact \<Rightarrow> Inexact
      | PosInfinity \<Rightarrow> if a = 0 then Inexact else PosInfinity)"


subsection \<open>State, configuration and network\<close>

text \<open>
  The module's mutable state and its files, passed explicitly. \<open>cache\<close> is the directory
  \<^verbatim>\<open>out_jsonl\<close> (a file exists for exactly the identifiers of its domain, holding what
  \<^verbatim>\<open>JSON.parse\<close> reads back), \<open>out_ts\<close> the directory \<^verbatim>\<open>out_ts\<close>, \<open>console\<close> the lines
  printed by \<^verbatim>\<open>console.warn\<close>, \<^verbatim>\<open>console.log\<close> and \<^verbatim>\<open>console.error\<close> per request and per
  identifier. \<open>rpcIndex\<close> is \<open>None\<close> when the variable holds \<^verbatim>\<open>NaN\<close>. Three fields record
  effects the program keeps no variable for: \<open>requests_sent\<close> counts the calls of
  \<^verbatim>\<open>getParsedTransaction\<close> and \<^verbatim>\<open>getTransaction\<close>, \<open>waits\<close> lists the \<^verbatim>\<open>backoff\<close> of every
  back-off wait, and \<open>started\<close> lists the identifiers in the order in which \<^verbatim>\<open>processSig\<close>
  was called for them. Waiting only delays: the clock, the pacing of \<^verbatim>\<open>nextRpc\<close> by
  \<^verbatim>\<open>rpcLastUsed\<close> and the random jitter added to a wait are left out.
\<close>

record stats =
  requests :: nat
  success :: nat
  failures :: nat

text \<open>
  The lines: \<open>Warn rpc attempt sig msg backoff\<close> is the \<^verbatim>\<open>[warn]\<close> line of the \<^verbatim>\<open>catch\<close>
  block of \<^verbatim>\<open>fetchParsedTx\<close> (the source prints the endpoint, the identifier and the
  message cut short), \<open>Done sig fn\<close> the \<^verbatim>\<open>[ok]\<close> line, \<open>NoDecompile sig\<close> the
  \<^verbatim>\<open>[no-decompile]\<close> line and \<open>Failed sig e\<close> the \<^verbatim>\<open>[error]\<close> line of \<^verbatim>\<open>processSig\<close>.
\<close>

datatype event =
    Warn string nat string string jsnum
  | Done string string
  | NoDecompile string
  | Failed string error

record world =
  cache :: "string \<rightharpoonup> raw_tx"
  rpcIndex :: "int option"
  rpcStats :: "string \<rightharpoonup> stats"
  requests_sent :: nat
  waits :: "jsnum list"
  started :: "string list"
  out_ts :: "string \<rightharpoonup> decompiled"
  console :: "event list"

text \<open>
  The configuration read from the environment. \<open>CONCURRENCY\<close> and \<open>MAX_RETRIES\<close> are
  the results of \<^verbatim>\<open>parseInt\<close> where these are non-negative integers; a setting that
  \<^verbatim>\<open>parseInt\<close> reads as a negative number or as \<^verbatim>\<open>NaN\<close> is left out. The endpoints of
  \<open>RPC_LIST\<close> are taken to be URLs that \<^verbatim>\<open>new Connection\<close> accepts.
\<close>

record config =
  RPC_LIST :: "string list"
  CONCURRENCY :: nat
  MAX_RETRIES :: nat

definition BASE_BACKOFF_MS :: nat where
  "BASE_BACKOFF_MS = 1000"

text \<open>
  A request to a provider and what comes back: \<open>Returned None\<close> is a \<^verbatim>\<open>null\<close> result,
  \<open>Thrown msg\<close> a rejection with \<^verbatim>\<open>e.message = msg\<close> (the timeout of \<^verbatim>\<open>Promise.race\<close> is
  \<open>Thrown ''timeout''\<close>). The network is a function of the number of requests sent
  before and of the request.
\<close>

datatype request = GetParsedTransaction string string | GetTransaction string string

datatype response = Returned "raw_tx option" | Thrown string

type_synonym network = "nat \<Rightarrow> request \<Rightarrow> response"

definition send :: "network \<Rightarrow> request \<Rightarrow> world \<Rightarrow> response \<times> world" where
  "send net req w = (net (requests_sent w) req, w\<lparr>requests_sent := requests_sent w + 1\<rparr>)"

subsection \<open>\<^verbatim>\<open>nextRpc\<close>\<close>

text \<open>
  \<^verbatim>\<open>rpcIndex = (rpcIndex + 1) % RPC_LIST.length; const rpc = RPC_LIST[rpcIndex]\<close>, and the
  count of the request under \<^verbatim>\<open>rpcStats[rpc]\<close>. The variable starts at \<open>-1\<close> and is never
  below. With an empty list the remainder is \<^verbatim>\<open>NaN\<close>, which it then stays; \<^verbatim>\<open>RPC_LIST[NaN]\<close>
  is \<^verbatim>\<open>undefined\<close> (\<open>None\<close>), and the request is counted under the property name
  \<^verbatim>\<open>undefined\<close>.
\<close>

definition nextRpc :: "config \<Rightarrow> world \<Rightarrow> string option \<times> world" where
  "nextRpc cfg w =
     (let idx = (case rpcIndex w of
                   None \<Rightarrow> None
                 | Some i \<Rightarrow>
                     if RPC_LIST cfg = [] then None
                     else Some ((i + 1) mod int (length (RPC_LIST cfg))));
          rpc = (case idx of None \<Rightarrow> None | Some j \<Rightarrow> Some (RPC_LIST cfg ! nat j));
          name = (case rpc of None \<Rightarrow> ''undefined'' | Some r \<Rightarrow> r);
          s = (case rpcStats w name of
                 None \<Rightarrow> \<lparr>requests = 0, success = 0, failures = 0\<rparr>
               | Some s \<Rightarrow> s)
      in (rpc,
          w\<lparr>rpcIndex := idx,
            rpcStats := (rpcStats w)(name \<mapsto> s\<lparr>requests := requests s + 1\<rparr>)\<rparr>))"

subsection \<open>The cache\<close>

text \<open>
  \<^verbatim>\<open>JSON.parse(JSON.stringify(obj))\<close>: a \<^verbatim>\<open>PublicKey\<close> is written as its base58 string and
  a buffer as an object that is neither a string nor a buffer.
\<close>

fun json_key :: "key_value \<Rightarrow> key_value" where
  "json_key (PublicKey s) = KeyString s"
| "json_key (KeyString s) = KeyString s"

fun json_data :: "data_value \<Rightarrow> data_value" where
  "json_data (DataString s) = DataString s"
| "json_data (DataBuffer b) = DataOther"
| "json_data DataOther = DataOther"

definition json_instr :: "raw_instr \<Rightarrow> raw_instr" where
  "json_instr i = i\<lparr>programId := map_option json_key (programId i),
                    data := map_option json_data (data i)\<rparr>"

definition json_message :: "message \<Rightarrow> message" where
  "json_message m = m\<lparr>instructions := map_option (map json_instr) (instructions m),
                      accountKeys := map_option (map json_key) (accountKeys m)\<rparr>"

definition json_roundtrip :: "raw_tx \<Rightarrow> raw_tx" where
  "json_roundtrip p =
     \<lparr>transaction = map_option (\<lambda>t.
        \<lparr>t_message = map_option json_message (t_message t),
         t_instructions = map_option (map json_instr) (t_instructions t)\<rparr>) (transaction p),
      r_message = map_option json_message (r_message p),
      top = json_message (top p)\<rparr>"

definition writeCache :: "string \<Rightarrow> raw_tx \<Rightarrow> world \<Rightarrow> world" where
  "writeCache sig obj w = w\<lparr>cache := (cache w)(sig \<mapsto> json_roundtrip obj)\<rparr>"

subsection \<open>\<^verbatim>\<open>fetchParsedTx\<close>\<close>

text \<open>\<^verbatim>\<open>rpcStats[rpc].success++; writeCache(sig, parsed)\<close>\<close>

definition on_success :: "string \<Rightarrow> string \<Rightarrow> raw_tx \<Rightarrow> world \<Rightarrow> world" where
  "on_success rpc sig obj w =
     writeCache sig obj
       (w\<lparr>rpcStats := (case rpcStats w rpc of
                          None \<Rightarrow> rpcStats w
                        | Some s \<Rightarrow> (rpcStats w)(rpc \<mapsto> s\<lparr>success := success s + 1\<rparr>))\<rparr>)"

text \<open>
  \<^verbatim>\<open>e.message && (e.message.includes('429') || e.message.includes('Too Many Requests'))\<close>
\<close>

definition is429 :: "string \<Rightarrow> bool" where
  "is429 msg = (msg \<noteq> [] \<and> (str_includes msg ''429'' \<or> str_includes msg ''Too Many Requests''))"

text \<open>
  \<^verbatim>\<open>is429 ? BASE_BACKOFF_MS * Math.pow(3, attempt) : BASE_BACKOFF_MS * Math.pow(2, attempt)\<close>
\<close>

definition backoff_ms :: "bool \<Rightarrow> nat \<Rightarrow> jsnum" where
  "backoff_ms rate_limited attempt =
     (if rate_limited then js_times BASE_BACKOFF_MS (js_pow 3 attempt)
      else js_times BASE_BACKOFF_MS (js_pow 2 attempt))"

text \<open>The \<^verbatim>\<open>catch\<close> block of \<^verbatim>\<open>fetchParsedTx\<close> (lines 102-108).\<close>

definition on_error :: "string \<Rightarrow> string \<Rightarrow> nat \<Rightarrow> string \<Rightarrow> world \<Rightarrow> world" where
  "on_error rpc sig attempt msg w =
     (let backoff = backoff_ms (is429 msg) attempt
      in w\<lparr>rpcStats := (case rpcStats w rpc of
                           None \<Rightarrow> rpcStats w
                         | Some s \<Rightarrow> (rpcStats w)(rpc \<mapsto> s\<lparr>failures := failures s + 1\<rparr>)),
            console := console w @ [Warn rpc attempt sig msg backoff],
            waits := waits w @ [backoff]\<rparr>)"

text \<open>
  The body of the \<^verbatim>\<open>while (attempt < MAX_RETRIES)\<close> loop of \<^verbatim>\<open>fetchParsedTx\<close>, after
  \<^verbatim>\<open>attempt++\<close>: \<open>Some r\<close> when the body returns or throws \<open>r\<close>, \<open>None\<close> when it falls
  through to the next iteration. \<^verbatim>\<open>new Connection(undefined)\<close> throws outside the
  \<^verbatim>\<open>try\<close>.
\<close>

definition attempt_once ::
  "config \<Rightarrow> network \<Rightarrow> string \<Rightarrow> nat \<Rightarrow> world \<Rightarrow> (error + raw_tx) option \<times> world" where
  "attempt_once cfg net sig attempt w =
     (case nextRpc cfg w of
        (None, w1) \<Rightarrow> (Some (Inl InvalidEndpoint), w1)
      | (Some rpc, w1) \<Rightarrow>
          (case send net (GetParsedTransaction rpc sig) w1 of
             (Thrown msg, w2) \<Rightarrow> (None, on_error rpc sig attempt msg w2)
           | (Returned (Some obj), w2) \<Rightarrow> (Some (Inr obj), on_success rpc sig obj w2)
           | (Returned None, w2) \<Rightarrow>
               (case send net (GetTransaction rpc sig) w2 of
                  (Thrown msg, w3) \<Rightarrow> (None, on_error rpc sig attempt msg w3)
                | (Returned (Some obj), w3) \<Rightarrow> (Some (Inr obj), on_success rpc sig obj w3)
                | (Returned None, w3) \<Rightarrow>
                    (None, w3\<lparr>waits := waits w3 @ [backoff_ms False attempt]\<rparr>))))"

text \<open>
  The loop; \<open>attempt\<close> is the value of the variable on entry to an iteration. Leaving
  the loop is \<^verbatim>\<open>throw new Error(`Failed to fetch ...`)\<close>.
\<close>

function fetch_loop :: "config \<Rightarrow> network \<Rightarrow> string \<Rightarrow> nat \<Rightarrow> world \<Rightarrow> (error + raw_tx) \<times> world" where
  "fetch_loop cfg net sig attempt w =
     (if attempt < MAX_RETRIES cfg then
        (case attempt_once cfg net sig (Suc attempt) w of
           (Some r, w') \<Rightarrow> (r, w')
         | (None, w') \<Rightarrow> fetch_loop cfg net sig (Suc attempt) w')
      else (Inl (FetchFailed sig (MAX_RETRIES cfg)), w))"
  by pat_completeness auto
termination
  by (relation "measure (\<lambda>(cfg, net, sig, attempt, w). MAX_RETRIES cfg - attempt)") auto

declare fetch_loop.simps [simp del]

text \<open>\<^verbatim>\<open>if (isCached(sig)) return readCache(sig);\<close> and then the loop.\<close>

definition fetchParsedTx :: "config \<Rightarrow> network \<Rightarrow> string \<Rightarrow> world \<Rightarrow> (error + raw_tx) \<times> world" where
  "fetchParsedTx cfg net sig w =
     (case cache w sig of
        Some obj \<Rightarrow> (Inr obj, w)
      | None \<Rightarrow> fetch_loop cfg net sig 0 w)"

section \<open>The batch run: \<^verbatim>\<open>processSig\<close> and \<^verbatim>\<open>run\<close>\<close>

text \<open>\<^verbatim>\<open>s.replace(/[^a-zA-Z0-9_.-]/g, '_').slice(0, 120)\<close>\<close>

definition safe_chars :: "char set" where
  "safe_chars = set ''abcdefghijklmnopqrstuvwxyzABCDEFGHIJKLMNOPQRSTUVWXYZ0123456789_.-''"

definition safeName :: "string \<Rightarrow> string" where
  "safeName s = take 120 (map (\<lambda>c. if c \<in> safe_chars then c else CHR ''_'') s)"

text \<open>
  What \<^verbatim>\<open>processSig\<close> does once it has the transaction or the error of the fetch: every
  error is caught and printed. The file written holds the rendering of the \<open>decompiled\<close>
  record.
\<close>

definition finish :: "string \<Rightarrow> error + raw_tx \<Rightarrow> world \<Rightarrow> world" where
  "finish sig r w =
     (case r of
        Inl e \<Rightarrow> w\<lparr>console := console w @ [Failed sig e]\<rparr>
      | Inr obj \<Rightarrow>
          (case decompileToTS sig obj of
             Inl e \<Rightarrow> w\<lparr>console := console w @ [Failed sig e]\<rparr>
           | Inr None \<Rightarrow> w\<lparr>console := console w @ [NoDecompile sig]\<rparr>
           | Inr (Some de) \<Rightarrow>
               (let fn = safeName (sig @ ''_'' @ kind de @ ''.ts'')
                in w\<lparr>out_ts := (out_ts w)(fn \<mapsto> de),
                      console := console w @ [Done sig fn]\<rparr>)))"

text \<open>
  \<^verbatim>\<open>processSig\<close> when nothing else runs between its start and its end:
  \<^verbatim>\<open>isCached(sig) ? readCache(sig) : await fetchParsedTx(sig)\<close>, then the rest.
\<close>

definition processSig :: "config \<Rightarrow> network \<Rightarrow> string \<Rightarrow> world \<Rightarrow> world" where
  "processSig cfg net sig w =
     (let w0 = w\<lparr>started := started w @ [sig]\<rparr>
      in case (case cache w0 sig of
                 Some obj \<Rightarrow> (Inr obj, w0)
               | None \<Rightarrow> fetchParsedTx cfg net sig w0) of
           (r, w1) \<Rightarrow> finish sig r w1)"

subsection \<open>Calls of \<^verbatim>\<open>processSig\<close> that run together\<close>

text \<open>
  \<^verbatim>\<open>Promise.all(batch.map(processSig))\<close> calls \<^verbatim>\<open>processSig\<close> for the identifiers of the
  batch in order; each call runs until its first \<^verbatim>\<open>await\<close> and is then suspended, and from
  then on the suspended calls resume in an order the program does not fix. A call runs
  without interruption from one \<^verbatim>\<open>await\<close> to the next. \<open>pc\<close> says where a call is
  suspended: at \<^verbatim>\<open>await nextRpc()\<close> (with the attempt number and the endpoint that
  \<^verbatim>\<open>nextRpc\<close> has chosen), at the \<^verbatim>\<open>await\<close> of one of the two requests (with the response
  that will arrive), in a back-off wait, or at \<^verbatim>\<open>await fetchParsedTx(sig)\<close> when
  \<^verbatim>\<open>fetchParsedTx\<close> has returned or thrown. \<open>Fresh\<close> is a call not yet made and \<open>Over\<close> a
  call that has returned.
\<close>

datatype pc =
    Fresh
  | AtNextRpc nat "string option"
  | AtParsed nat string response
  | AtRaw nat string response
  | AtWait nat
  | AtResult "error + raw_tx"
  | Over

text \<open>
  The test of the \<^verbatim>\<open>while\<close> loop with \<open>attempt = a\<close> and, when it holds, \<^verbatim>\<open>attempt++\<close>
  and the call of \<^verbatim>\<open>nextRpc\<close>.
\<close>

definition enter_loop :: "config \<Rightarrow> string \<Rightarrow> nat \<Rightarrow> world \<Rightarrow> pc \<times> world" where
  "enter_loop cfg sig a w =
     (if a < MAX_RETRIES cfg then
        (case nextRpc cfg w of (rpc, w1) \<Rightarrow> (AtNextRpc (Suc a) rpc, w1))
      else (AtResult (Inl (FetchFailed sig (MAX_RETRIES cfg))), w))"

text \<open>What a call does from where it is suspended up to its next \<^verbatim>\<open>await\<close>.\<close>

fun task_step :: "config \<Rightarrow> network \<Rightarrow> string \<Rightarrow> pc \<Rightarrow> world \<Rightarrow> pc \<times> world" where
  "task_step cfg net sig Fresh w =
     (let w0 = w\<lparr>started := started w @ [sig]\<rparr>
      in case cache w0 sig of
           Some obj \<Rightarrow> (Over, finish sig (Inr obj) w0)
         | None \<Rightarrow> enter_loop cfg sig 0 w0)"
| "task_step cfg net sig (AtNextRpc n None) w = (AtResult (Inl InvalidEndpoint), w)"
| "task_step cfg net sig (AtNextRpc n (Some rpc)) w =
     (case send net (GetParsedTransaction rpc sig) w of
        (resp, w') \<Rightarrow> (AtParsed n rpc resp, w'))"
| "task_step cfg net sig (AtParsed n rpc resp) w =
     (case resp of
        Thrown msg \<Rightarrow> (AtWait n, on_error rpc sig n msg w)
      | Returned (Some obj) \<Rightarrow> (AtResult (Inr obj), on_success rpc sig obj w)
      | Returned None \<Rightarrow>
          (case send net (GetTransaction rpc sig) w of
             (resp', w') \<Rightarrow> (AtRaw n rpc resp', w')))"
| "task_step cfg net sig (AtRaw n rpc resp) w =
     (case resp of
        Thrown msg \<Rightarrow> (AtWait n, on_error rpc sig n msg w)
      | Returned (Some obj) \<Rightarrow> (AtResult (Inr obj), on_success rpc sig obj w)
      | Returned None \<Rightarrow> (AtWait n, w\<lparr>waits := waits w @ [backoff_ms False n]\<rparr>))"
| "task_step cfg net sig (AtWait n) w = enter_loop cfg sig n w"
| "task_step cfg net sig (AtResult r) w = (Over, finish sig r w)"
| "task_step cfg net sig Over w = (Over, w)"

text \<open>An upper bound of the number of steps a call still has to make.\<close>

fun rank :: "config \<Rightarrow> pc \<Rightarrow> nat" where
  "rank cfg Fresh = 4 * MAX_RETRIES cfg + 6"
| "rank cfg (AtNextRpc n rpc) = 4 * (MAX_RETRIES cfg - n) + 5"
| "rank cfg (AtParsed n rpc resp) = 4 * (MAX_RETRIES cfg - n) + 4"
| "rank cfg (AtRaw n rpc resp) = 4 * (MAX_RETRIES cfg - n) + 3"
| "rank cfg (AtWait n) = 4 * (MAX_RETRIES cfg - n) + 2"
| "rank cfg (AtResult r) = 1"
| "rank cfg Over = 0"

definition total_rank :: "config \<Rightarrow> (string \<times> pc) list \<Rightarrow> nat" where
  "total_rank cfg ts = sum_list (map (\<lambda>t. rank cfg (snd t)) ts)"

text \<open>The calls of a batch are made in order.\<close>

fun start_batch ::
  "config \<Rightarrow> network \<Rightarrow> string list \<Rightarrow> world \<Rightarrow> (string \<times> pc) list \<times> world" where
  "start_batch cfg net [] w = ([], w)"
| "start_batch cfg net (sig # rest) w =
     (case task_step cfg net sig Fresh w of
        (p, w1) \<Rightarrow>
          (case start_batch cfg net rest w1 of
             (ts, w2) \<Rightarrow> ((sig, p) # ts, w2)))"

text \<open>
  The suspended call number \<open>i\<close> resumes; when it returns it leaves the list of the
  suspended calls.
\<close>

definition resume ::
  "config \<Rightarrow> network \<Rightarrow> nat \<Rightarrow> (string \<times> pc) list \<Rightarrow> world \<Rightarrow> (string \<times> pc) list \<times> world" where
  "resume cfg net i ts w =
     (case ts ! i of
        (sig, p) \<Rightarrow>
          (case task_step cfg net sig p w of
             (p', w') \<Rightarrow>
               (if p' = Over then take i ts @ drop (Suc i) ts else ts[i := (sig, p')], w')))"

text \<open>
  The suspended calls resume one at a time until all have returned. Which one resumes at
  step \<open>k\<close> is not fixed by the program: the schedule \<open>sched\<close> picks it.
\<close>

partial_function (option) pump ::
  "config \<Rightarrow> network \<Rightarrow> (nat \<Rightarrow> nat) \<Rightarrow> nat \<Rightarrow> (string \<times> pc) list \<Rightarrow> world \<Rightarrow> world option" where
  "pump cfg net sched k ts w =
     (if ts = [] then Some w
      else
        (case resume cfg net (sched k mod length ts) ts w of
           (ts', w') \<Rightarrow> pump cfg net sched (Suc k) ts' w'))"

text \<open>The calls of a batch that are suspended after all were made.\<close>

definition live :: "(string \<times> pc) list \<Rightarrow> (string \<times> pc) list" where
  "live ts = filter (\<lambda>t. snd t \<noteq> Over) ts"

text \<open>One window: \<^verbatim>\<open>await Promise.all(batch.map(processSig))\<close>.\<close>

definition run_batch ::
  "config \<Rightarrow> network \<Rightarrow> (nat \<Rightarrow> nat) \<Rightarrow> string list \<Rightarrow> world \<Rightarrow> world option" where
  "run_batch cfg net sched batch w =
     (case start_batch cfg net batch w of (ts, w1) \<Rightarrow> pump cfg net sched 0 (live ts) w1)"

text \<open>
  The \<^verbatim>\<open>while (i < sigs.length)\<close> loop of \<^verbatim>\<open>run\<close>; \<open>sched i\<close> is the schedule of the window
  that starts at index \<open>i\<close>. With \<^verbatim>\<open>CONCURRENCY\<close> zero the loop never ends, which is
  \<open>None\<close>.
\<close>

partial_function (option) run_loop ::
  "config \<Rightarrow> network \<Rightarrow> (nat \<Rightarrow> nat \<Rightarrow> nat) \<Rightarrow> string list \<Rightarrow> nat \<Rightarrow> world \<Rightarrow> world option" where
  "run_loop cfg net sched sigs i w =
     (if i < length sigs then
        Option.bind
          (run_batch cfg net (sched i) (take (CONCURRENCY cfg) (drop i sigs)) w)
          (run_loop cfg net sched sigs (i + CONCURRENCY cfg))
      else Some w)"

text \<open>\<^verbatim>\<open>allSigs.indexOf(x)\<close>, \<open>None\<close> for \<open>-1\<close>.\<close>

fun indexOf :: "string list \<Rightarrow> string \<Rightarrow> nat option" where
  "indexOf [] x = None"
| "indexOf (y # ys) x = (if y = x then Some 0 else map_option Suc (indexOf ys x))"

text \<open>
  \<^verbatim>\<open>run\<close> from the list \<^verbatim>\<open>allSigs\<close> on (lines 364-409), with \<^verbatim>\<open>START_FROM_SIG\<close> as a
  parameter. The result is \<open>None\<close> when the loop does not end, and otherwise the final
  state together with the error of \<^verbatim>\<open>process.exit(1)\<close>, if that was called.
\<close>

definition run ::
  "config \<Rightarrow> network \<Rightarrow> (nat \<Rightarrow> nat \<Rightarrow> nat) \<Rightarrow> string option \<Rightarrow> string list \<Rightarrow> world \<Rightarrow>
     (error option \<times> world) option" where
  "run cfg net sched START_FROM_SIG allSigs w =
     (case (case START_FROM_SIG of
              None \<Rightarrow> Inr allSigs
            | Some s \<Rightarrow>
                if s \<noteq> [] then
                  (case indexOf allSigs s of
                     None \<Rightarrow> Inl (StartSignatureNotFound s)
                   | Some startIndex \<Rightarrow> Inr (drop startIndex allSigs))
                else Inr allSigs) of
        Inl e \<Rightarrow> Some (Some e, w)
      | Inr sigs \<Rightarrow> map_option (\<lambda>w'. (None, w')) (run_loop cfg net sched sigs 0 w))"

text \<open>
  The identifiers \<^verbatim>\<open>processSig\<close> has returned for, in the order of the last line it
  printed for each.
\<close>

fun finished :: "event \<Rightarrow> string option" where
  "finished (Warn rpc attempt sig msg backoff) = None"
| "finished (Done sig fn) = Some sig"
| "finished (NoDecompile sig) = Some sig"
| "finished (Failed sig e) = Some sig"

definition processed :: "world \<Rightarrow> string list" where
  "processed w = List.map_filter finished (console w)"

definition initial_world :: world where
  "initial_world =
     \<lparr>cache = Map.empty, rpcIndex = Some (- 1), rpcStats = Map.empty, requests_sent = 0,
      waits = [], started = [], out_ts = Map.empty, console = []\<rparr>"

section \<open>Notions used to state the properties\<close>

text \<open>
  The addresses that occur in a canonical instruction list: every program id and every
  account of every instruction.
\<close>

definition addresses_of :: "instruction list \<Rightarrow> string set" where
  "addresses_of ds = (\<Union>d\<in>set ds. insert (d_programId d) (pubkey ` set (keys d)))"

text \<open>
  The compute-budget program id, if some raw instruction resolves to it, and nothing
  otherwise.
\<close>

definition budget_seen :: "key_value list \<Rightarrow> raw_instr list \<Rightarrow> string set" where
  "budget_seen aks ins =
     (if Some COMPUTE_BUDGET_PROGRAM \<in> programId_of aks ` set ins
      then {COMPUTE_BUDGET_PROGRAM} else {})"

text \<open>
  A raw instruction that ends up in the canonical list: its program id resolves and is
  not the compute-budget program.
\<close>

definition acted :: "key_value list \<Rightarrow> raw_instr \<Rightarrow> bool" where
  "acted aks instr =
     (case programId_of aks instr of
        None \<Rightarrow> False
      | Some pid \<Rightarrow> pid \<noteq> COMPUTE_BUDGET_PROGRAM)"

text \<open>
  The strategies of the program-id resolution, one function each, and the first match of
  a list of them. \<open>spec_chain\<close> is the chain as the specification words it: four
  strategies, then the instruction is skipped.
\<close>

fun first_match :: "'a option list \<Rightarrow> 'a option" where
  "first_match [] = None"
| "first_match (None # xs) = first_match xs"
| "first_match (Some x # xs) = Some x"

definition embedded_key :: "raw_instr \<Rightarrow> string option" where
  "embedded_key instr = (case programId instr of Some (PublicKey s) \<Rightarrow> Some s | _ \<Rightarrow> None)"

definition string_tag :: "raw_instr \<Rightarrow> string option" where
  "string_tag instr =
     (case programId instr of
        Some (KeyString s) \<Rightarrow> if s \<noteq> [] then Some s else None
      | _ \<Rightarrow> None)"

definition system_marker :: "raw_instr \<Rightarrow> string option" where
  "system_marker instr =
     (if program instr = Some ''system'' then Some SYSTEM_PROGRAM else None)"

definition indexed_key :: "key_value list \<Rightarrow> raw_instr \<Rightarrow> string option" where
  "indexed_key aks instr =
     (case programIdIndex instr of
        None \<Rightarrow> None
      | Some i \<Rightarrow> map_option key_str (key_at aks i))"

definition program_name :: "raw_instr \<Rightarrow> string option" where
  "program_name instr =
     (case program instr of
        Some p \<Rightarrow> if p \<noteq> [] then Some p else None
      | None \<Rightarrow> None)"

definition spec_chain :: "key_value list \<Rightarrow> raw_instr \<Rightarrow> string option" where
  "spec_chain aks instr =
     first_match [embedded_key instr, string_tag instr, system_marker instr,
                  indexed_key aks instr]"

text \<open>
  The tag vocabulary as the specification lists it, and the same with the token tag the
  source writes.
\<close>

definition spec_vocabulary :: "string set" where
  "spec_vocabulary =
     {''system'', ''token'', ''memo'', ''program'', ''complex'', ''unrecognized''} \<union>
     range (\<lambda>n. ''multi-'' @ show_nat n)"

definition tag_vocabulary :: "string set" where
  "tag_vocabulary =
     {''system'', ''spl-token'', ''memo'', ''program'', ''complex'', ''unrecognized''} \<union>
     range (\<lambda>n. ''multi-'' @ show_nat n)"

text \<open>
  The account indices on which the two copies of the normalizer set the writable flag
  differently, read off the header: the \<^verbatim>\<open>numRequiredSignatures\<close> indices from
  \<^verbatim>\<open>accountKeys.length - numReadonlySignedAccounts - numReadonlyUnsignedAccounts\<close> on.
  Without a header there is none.
\<close>

definition writable_band :: "message \<Rightarrow> key_value list \<Rightarrow> nat \<Rightarrow> bool" where
  "writable_band m aks i =
     (case header m of
        None \<Rightarrow> False
      | Some h \<Rightarrow>
          (let lo = int (length aks) - or0 (numReadonlySignedAccounts h)
                      - or0 (numReadonlyUnsignedAccounts h)
           in lo \<le> int i \<and> int i < lo + or0 (numRequiredSignatures h)))"

text \<open>
  Where the two copies of the normalizer cannot differ on an instruction: its program id
  resolves, and unless it is the compute-budget program, the id contains \<^verbatim>\<open>Memo\<close> only
  if it is one of the two memo programs, and no account index it lists by number has an
  account key and lies in the band above.
\<close>

definition memo_recognised :: "string \<Rightarrow> bool" where
  "memo_recognised pid = (str_includes pid ''Memo'' \<longrightarrow> pid \<in> MEMO_PROGRAM_IDS)"

definition outside_band :: "message \<Rightarrow> key_value list \<Rightarrow> nat \<Rightarrow> bool" where
  "outside_band m aks i = (key_at aks i = None \<or> \<not> writable_band m aks i)"

definition variants_agree_on :: "message \<Rightarrow> key_value list \<Rightarrow> raw_instr \<Rightarrow> bool" where
  "variants_agree_on m aks instr =
     (case programId_of aks instr of
        None \<Rightarrow> False
      | Some pid \<Rightarrow>
          pid = COMPUTE_BUDGET_PROGRAM \<or>
          (memo_recognised pid \<and>
           (case accounts instr of
              None \<Rightarrow> True
            | Some idxs \<Rightarrow> list_all (outside_band m aks) idxs)))"

text \<open>
  A line of \<^verbatim>\<open>console.warn\<close> printed by an iteration after the one entered with
  \<open>attempt = a\<close>: its attempt number is within the budget and its back-off is the one of
  \<open>backoff_ms\<close>.
\<close>

definition warned :: "config \<Rightarrow> nat \<Rightarrow> event \<Rightarrow> bool" where
  "warned cfg a ev =
     (case ev of
        Warn rpc n sig msg b \<Rightarrow>
          a < n \<and> n \<le> MAX_RETRIES cfg \<and> b = backoff_ms (is429 msg) n
      | _ \<Rightarrow> False)"

text \<open>
  The message of the error an iteration of the loop of \<^verbatim>\<open>fetchParsedTx\<close> catches, when
  its first request is request number \<open>k\<close> of the run: the first request throws, or it
  returns \<^verbatim>\<open>null\<close> and the second throws.
\<close>

definition failure :: "network \<Rightarrow> nat \<Rightarrow> string \<Rightarrow> string \<Rightarrow> string option" where
  "failure net k rpc sig =
     (case net k (GetParsedTransaction rpc sig) of
        Thrown msg \<Rightarrow> Some msg
      | Returned (Some obj) \<Rightarrow> None
      | Returned None \<Rightarrow>
          (case net (Suc k) (GetTransaction rpc sig) of
             Thrown msg \<Rightarrow> Some msg
           | Returned r \<Rightarrow> None))"

text \<open>
  The windows of the batch run: a list cut into pieces of \<open>W\<close> elements, the last one
  possibly shorter.
\<close>

fun windows :: "nat \<Rightarrow> 'a list \<Rightarrow> 'a list list" where
  "windows W xs = (if W = 0 \<or> xs = [] then [] else take W xs # windows W (drop W xs))"

declare windows.simps [simp del]

text \<open>Calls that have been made and have not returned.\<close>

definition suspended :: "(string \<times> pc) list \<Rightarrow> bool" where
  "suspended ts = list_all (\<lambda>t. snd t \<noteq> Over \<and> snd t \<noteq> Fresh) ts"





section \<open>Example inputs\<close>

definition no_instr :: raw_instr where
  "no_instr = \<lparr>programId = None, program = None, programIdIndex = None, parsed = None,
     accounts = None, data = None\<rparr>"

text \<open>The response shape \<^verbatim>\<open>{transaction: {message: m}}\<close>.\<close>

definition bare_tx :: "message \<Rightarrow> raw_tx" where
  "bare_tx m = \<lparr>transaction = Some \<lparr>t_message = Some m, t_instructions = None\<rparr>,
     r_message = None, top = \<lparr>instructions = None, accountKeys = None, header = None\<rparr>\<rparr>"

text \<open>
  The example of the specification: five account keys, two required signatures, one
  read-only signed and one read-only unsigned account, and one instruction of the program
  at index 4 that lists all five accounts by index.
\<close>

definition header_example_tx :: raw_tx where
  "header_example_tx = bare_tx
     \<lparr>instructions = Some [no_instr\<lparr>programIdIndex := Some 4,
          accounts := Some [0, 1, 2, 3, 4], data := Some (DataString ''3Bxs'')\<rparr>],
      accountKeys = Some [KeyString ''A0'', KeyString ''A1'', KeyString ''A2'',
          KeyString ''A3'', KeyString ''A4''],
      header = Some \<lparr>numRequiredSignatures = Some 2, numReadonlySignedAccounts = Some 1,
          numReadonlyUnsignedAccounts = Some 1\<rparr>\<rparr>"

text \<open>
  The five account references of the example, with the writable flags of the accounts
  at indices 1, 3 and 4 left open.
\<close>

definition header_example_keys :: "bool \<Rightarrow> bool \<Rightarrow> bool \<Rightarrow> account_ref list" where
  "header_example_keys w1 w3 w4 =
     [\<lparr>pubkey = ''A0'', isSigner = True, isWritable = True\<rparr>,
      \<lparr>pubkey = ''A1'', isSigner = True, isWritable = w1\<rparr>,
      \<lparr>pubkey = ''A2'', isSigner = False, isWritable = True\<rparr>,
      \<lparr>pubkey = ''A3'', isSigner = False, isWritable = w3\<rparr>,
      \<lparr>pubkey = ''A4'', isSigner = False, isWritable = w4\<rparr>]"

definition header_example_result :: "account_ref list \<Rightarrow> decompiled" where
  "header_example_result ks =
     \<lparr>kind = ''program'', ts_sig = ''sig'',
      ts_instructions = [\<lparr>d_programId = ''A4'', description = ''Program A4... instruction'',
         keys = ks, d_data = ''3Bxs''\<rparr>],
      ts_accounts = [''A4'', ''A0'', ''A1'', ''A2'', ''A3''], ts_computeBudget = None\<rparr>"

text \<open>A pre-parsed compute-budget instruction and a pre-parsed system transfer.\<close>

definition set_limit_instr :: raw_instr where
  "set_limit_instr = no_instr\<lparr>programId := Some (KeyString COMPUTE_BUDGET_PROGRAM),
     parsed := Some \<lparr>ptype = Some ''setComputeUnitLimit'',
                     info = Some [''units'' \<mapsto> JNum 300000]\<rparr>\<rparr>"

definition transfer_instr :: raw_instr where
  "transfer_instr = no_instr\<lparr>programId := Some (KeyString SYSTEM_PROGRAM),
     program := Some ''system'',
     parsed := Some \<lparr>ptype = Some ''transfer'',
                     info = Some [''source'' \<mapsto> JStr ''Alice'',
                                  ''destination'' \<mapsto> JStr ''Bob'',
                                  ''lamports'' \<mapsto> JNum 5000]\<rparr>\<rparr>"

definition transfer_instruction :: instruction where
  "transfer_instruction =
     \<lparr>d_programId = SYSTEM_PROGRAM, description = ''transfer (5000 lamports)'',
      keys = [\<lparr>pubkey = ''Alice'', isSigner = True, isWritable = True\<rparr>,
              \<lparr>pubkey = ''Bob'', isSigner = False, isWritable = True\<rparr>],
      d_data = []\<rparr>"

definition budget_transfer_tx :: raw_tx where
  "budget_transfer_tx = bare_tx
     \<lparr>instructions = Some [set_limit_instr, transfer_instr], accountKeys = None,
      header = None\<rparr>"

definition budget_transfer_result :: decompiled where
  "budget_transfer_result =
     \<lparr>kind = ''system'', ts_sig = ''sig'', ts_instructions = [transfer_instruction],
      ts_accounts = [COMPUTE_BUDGET_PROGRAM, SYSTEM_PROGRAM, ''Alice'', ''Bob''],
      ts_computeBudget = Some (JNum 300000)\<rparr>"

definition budget_only_tx :: raw_tx where
  "budget_only_tx = bare_tx
     \<lparr>instructions = Some [set_limit_instr], accountKeys = None, header = None\<rparr>"

definition budget_only_result :: decompiled where
  "budget_only_result =
     \<lparr>kind = ''complex'', ts_sig = ''sig'', ts_instructions = [],
      ts_accounts = [COMPUTE_BUDGET_PROGRAM], ts_computeBudget = Some (JNum 300000)\<rparr>"

definition empty_tx :: raw_tx where
  "empty_tx = bare_tx \<lparr>instructions = Some [], accountKeys = None, header = None\<rparr>"

text \<open>An instruction that carries nothing but the provider's program name.\<close>

definition named_memo_instr :: raw_instr where
  "named_memo_instr = no_instr\<lparr>program := Some ''spl-memo''\<rparr>"

text \<open>An instruction with a string program id and an index into the account keys.\<close>

definition tagged_indexed_instr :: raw_instr where
  "tagged_indexed_instr =
     no_instr\<lparr>programId := Some (KeyString ''Prog1''), programIdIndex := Some 0\<rparr>"

text \<open>A pre-parsed transfer of the SPL token program.\<close>

definition token_transfer_tx :: raw_tx where
  "token_transfer_tx = bare_tx
     \<lparr>instructions = Some [no_instr\<lparr>programId := Some (KeyString TOKEN_PROGRAM),
          program := Some ''spl-token'',
          parsed := Some \<lparr>ptype = Some ''transfer'',
                          info = Some [''source'' \<mapsto> JStr ''Src'',
                                       ''destination'' \<mapsto> JStr ''Dst'',
                                       ''authority'' \<mapsto> JStr ''Auth'',
                                       ''amount'' \<mapsto> JStr ''1000'']\<rparr>\<rparr>],
      accountKeys = None, header = None\<rparr>"

definition token_transfer_instruction :: instruction where
  "token_transfer_instruction =
     \<lparr>d_programId = TOKEN_PROGRAM, description = ''transfer (amount: 1000)'',
      keys = [\<lparr>pubkey = ''Src'', isSigner = True, isWritable = True\<rparr>,
              \<lparr>pubkey = ''Dst'', isSigner = False, isWritable = True\<rparr>,
              \<lparr>pubkey = ''Auth'', isSigner = True, isWritable = False\<rparr>],
      d_data = []\<rparr>"

definition token_transfer_result :: decompiled where
  "token_transfer_result =
     \<lparr>kind = ''spl-token'', ts_sig = ''sig'', ts_instructions = [token_transfer_instruction],
      ts_accounts = [TOKEN_PROGRAM, ''Src'', ''Dst'', ''Auth''], ts_computeBudget = None\<rparr>"

text \<open>An instruction without any program id, followed by the system transfer.\<close>

definition unresolved_then_transfer_tx :: raw_tx where
  "unresolved_then_transfer_tx = bare_tx
     \<lparr>instructions = Some [no_instr, transfer_instr], accountKeys = None, header = None\<rparr>"

definition unknown_instruction :: instruction where
  "unknown_instruction =
     \<lparr>d_programId = ''unknown'', description = ''Program unknown... instruction'',
      keys = [], d_data = []\<rparr>"

definition named_memo_tx :: raw_tx where
  "named_memo_tx = bare_tx
     \<lparr>instructions = Some [named_memo_instr], accountKeys = None, header = None\<rparr>"

definition named_memo_result :: decompiled where
  "named_memo_result =
     \<lparr>kind = ''program'', ts_sig = ''sig'',
      ts_instructions = [\<lparr>d_programId = ''spl-memo'',
         description = ''Program spl-memo... instruction'', keys = [], d_data = []\<rparr>],
      ts_accounts = [''spl-memo''], ts_computeBudget = None\<rparr>"

definition unresolved_then_transfer_result :: decompiled where
  "unresolved_then_transfer_result =
     \<lparr>kind = ''system'', ts_sig = ''sig'', ts_instructions = [transfer_instruction],
      ts_accounts = [SYSTEM_PROGRAM, ''Alice'', ''Bob''], ts_computeBudget = None\<rparr>"

definition unresolved_then_transfer_result_part000 :: decompiled where
  "unresolved_then_transfer_result_part000 =
     \<lparr>kind = ''multi-2'', ts_sig = ''sig'',
      ts_instructions = [unknown_instruction, transfer_instruction],
      ts_accounts = [''unknown'', SYSTEM_PROGRAM, ''Alice'', ''Bob''],
      ts_computeBudget = None\<rparr>"

text \<open>
  A memo: four account keys, one required signature and two read-only unsigned accounts;
  one instruction of the memo program at index 2 that lists the accounts 0, 1 and 3.
\<close>

definition memo_note_tx :: raw_tx where
  "memo_note_tx = bare_tx
     \<lparr>instructions = Some [no_instr\<lparr>programIdIndex := Some 2,
          accounts := Some [0, 1, 3], data := Some (DataString ''hello'')\<rparr>],
      accountKeys = Some [KeyString ''A0'', KeyString ''A1'',
          KeyString ''MemoSq4gqABAXKb96qnH8TysNcWxMyWCqXgDLGmfcHr'', KeyString ''A3''],
      header = Some \<lparr>numRequiredSignatures = Some 1, numReadonlySignedAccounts = Some 0,
          numReadonlyUnsignedAccounts = Some 2\<rparr>\<rparr>"

definition memo_note_result :: decompiled where
  "memo_note_result =
     \<lparr>kind = ''memo'', ts_sig = ''sig'',
      ts_instructions = [\<lparr>d_programId = ''MemoSq4gqABAXKb96qnH8TysNcWxMyWCqXgDLGmfcHr'',
         description = ''Memo'',
         keys = [\<lparr>pubkey = ''A0'', isSigner = True, isWritable = True\<rparr>,
                 \<lparr>pubkey = ''A1'', isSigner = False, isWritable = True\<rparr>,
                 \<lparr>pubkey = ''A3'', isSigner = False, isWritable = False\<rparr>],
         d_data = ''hello''\<rparr>],
      ts_accounts = [''MemoSq4gqABAXKb96qnH8TysNcWxMyWCqXgDLGmfcHr'', ''A0'', ''A1'', ''A3''],
      ts_computeBudget = None\<rparr>"

text \<open>
  An instruction of a program whose id contains \<^verbatim>\<open>Memo\<close> and is not a memo program, and
  the result with the description and the kind left open.
\<close>

definition memo_like_tx :: raw_tx where
  "memo_like_tx = bare_tx
     \<lparr>instructions = Some [no_instr\<lparr>programId := Some (KeyString ''MemoFake'')\<rparr>],
      accountKeys = None, header = None\<rparr>"

definition memo_like_result :: "string \<Rightarrow> string \<Rightarrow> decompiled" where
  "memo_like_result k d =
     \<lparr>kind = k, ts_sig = ''sig'',
      ts_instructions = [\<lparr>d_programId = ''MemoFake'', description = d, keys = [],
         d_data = []\<rparr>],
      ts_accounts = [''MemoFake''], ts_computeBudget = None\<rparr>"

text \<open>
  The default configuration and one with a retry budget of 1015; a network that never
  answers and one that always answers with status 429; a cache that holds one
  transaction.
\<close>

definition default_config :: config where
  "default_config =
     \<lparr>RPC_LIST = [''https://api.mainnet-beta.solana.com''], CONCURRENCY = 5, MAX_RETRIES = 5\<rparr>"


definition dead_network :: network where
  "dead_network = (\<lambda>n req. Thrown ''timeout'')"

definition busy_network :: network where
  "busy_network = (\<lambda>n req. Thrown ''429 Too Many Requests'')"

definition cached_world :: world where
  "cached_world = initial_world\<lparr>cache := [''sigA'' \<mapsto> budget_transfer_tx]\<rparr>"




section \<open>Evaluation of the examples\<close>

lemmas normalizer_defs =
  decompileToTS_def message_of_def instructions_of_def accountKeys_of_def init_state_def
  step_def programId_of_def programId_fallback_def key_at_def description_of_def
  describe_parsed_def append_field_def keys_of_def index_keys_def field_keys_def
  accountFields_def numSigners_def numWritable_def or0_def data_of_def set_add_def
  compute_budget_step_def units_of_def kind_of_def Let_def

lemmas part000_defs =
  decompileToTS_part000_def step_part000_def programId_of_part000_def
  programId_fallback_part000_def description_of_part000_def keys_of_part000_def
  index_keys_part000_def numWritable_part000_def kind_of_part000_def

lemmas program_ids =
  SYSTEM_PROGRAM_def TOKEN_PROGRAM_def COMPUTE_BUDGET_PROGRAM_def MEMO_PROGRAM_IDS_def

lemmas example_defs =
  no_instr_def bare_tx_def header_example_tx_def header_example_keys_def
  header_example_result_def set_limit_instr_def transfer_instr_def transfer_instruction_def
  budget_transfer_tx_def budget_transfer_result_def budget_only_tx_def budget_only_result_def
  empty_tx_def named_memo_instr_def tagged_indexed_instr_def token_transfer_tx_def
  token_transfer_instruction_def token_transfer_result_def unresolved_then_transfer_tx_def
  unknown_instruction_def

lemmas chain_defs =
  embedded_key_def string_tag_def system_marker_def indexed_key_def program_name_def
  spec_chain_def

lemma show_nat_5000: "show_nat 5000 = ''5000''"
  by (simp add: show_nat.simps digit_char_def)

lemma show_nat_2: "show_nat (Suc (Suc 0)) = ''2''"
  by (simp add: show_nat.simps digit_char_def)

lemma header_example_eval:
  "decompileToTS ''sig'' header_example_tx =
     Inr (Some (header_example_result (header_example_keys True False False)))"
  by (simp add: normalizer_defs example_defs program_ids)

lemma header_example_eval_part000:
  "decompileToTS_part000 ''sig'' header_example_tx =
     Inr (Some (header_example_result (header_example_keys True True True)))"
  by (simp add: normalizer_defs part000_defs example_defs program_ids)

lemma budget_transfer_eval:
  "decompileToTS ''sig'' budget_transfer_tx = Inr (Some budget_transfer_result)"
  by (simp add: normalizer_defs example_defs program_ids show_nat_5000)

lemma budget_only_eval:
  "decompileToTS ''sig'' budget_only_tx = Inr (Some budget_only_result)"
  by (simp add: normalizer_defs example_defs program_ids)

lemma token_transfer_eval:
  "decompileToTS ''sig'' token_transfer_tx = Inr (Some token_transfer_result)"
  by (simp add: normalizer_defs example_defs program_ids)

lemma unresolved_then_transfer_eval:
  "decompileToTS ''sig'' unresolved_then_transfer_tx =
     Inr (Some \<lparr>kind = ''system'', ts_sig = ''sig'', ts_instructions = [transfer_instruction],
                ts_accounts = [SYSTEM_PROGRAM, ''Alice'', ''Bob''], ts_computeBudget = None\<rparr>)"
  by (simp add: normalizer_defs example_defs program_ids show_nat_5000)

lemma unresolved_then_transfer_eval_part000:
  "decompileToTS_part000 ''sig'' unresolved_then_transfer_tx =
     Inr (Some \<lparr>kind = ''multi-2'', ts_sig = ''sig'',
                ts_instructions = [unknown_instruction, transfer_instruction],
                ts_accounts = [''unknown'', SYSTEM_PROGRAM, ''Alice'', ''Bob''],
                ts_computeBudget = None\<rparr>)"
  by (simp add: normalizer_defs part000_defs example_defs program_ids show_nat_5000
      show_nat_2)

lemma memo_note_eval:
  "decompileToTS ''sig'' memo_note_tx = Inr (Some memo_note_result)"
  by (simp add: normalizer_defs no_instr_def bare_tx_def memo_note_tx_def memo_note_result_def
      program_ids)

lemma memo_note_eval_part000:
  "decompileToTS_part000 ''sig'' memo_note_tx = Inr (Some memo_note_result)"
  by (simp add: normalizer_defs part000_defs no_instr_def bare_tx_def memo_note_tx_def
      memo_note_result_def program_ids)

lemma memo_like_eval:
  "decompileToTS ''sig'' memo_like_tx =
     Inr (Some (memo_like_result ''program'' ''Program MemoFake... instruction''))"
  by (simp add: normalizer_defs no_instr_def bare_tx_def memo_like_tx_def memo_like_result_def
      program_ids)

lemma memo_like_eval_part000:
  "decompileToTS_part000 ''sig'' memo_like_tx = Inr (Some (memo_like_result ''memo'' ''Memo''))"
  by (simp add: normalizer_defs part000_defs no_instr_def bare_tx_def memo_like_tx_def
      memo_like_result_def program_ids)


section \<open>Facts about the loop of the normalizer\<close>

lemma addresses_of_append:
  "addresses_of (ds @ [d]) = addresses_of ds \<union> insert (d_programId d) (pubkey ` set (keys d))"
  by (auto simp: addresses_of_def)

lemma set_set_add: "set (set_add x xs) = insert x (set xs)"
  by (auto simp: set_add_def)

lemma set_foldl_set_add:
  "set (foldl (\<lambda>u k. set_add (pubkey k) u) u ks) = set u \<union> pubkey ` set ks"
  by (induction ks arbitrary: u) (auto simp: set_set_add)

lemma compute_budget_step_frame:
  "uniqueAccounts (compute_budget_step instr st) = uniqueAccounts st"
  "detailedInstructions (compute_budget_step instr st) = detailedInstructions st"
  by (auto simp: compute_budget_step_def split: option.splits)

lemma budget_seen_Cons:
  "budget_seen aks (i # ins) = budget_seen aks [i] \<union> budget_seen aks ins"
  by (auto simp: budget_seen_def)

lemma step_accounts:
  assumes "step m aks instr st = Inr st'"
    and "set (uniqueAccounts st) = addresses_of (detailedInstructions st) \<union> X"
  shows "set (uniqueAccounts st') =
           addresses_of (detailedInstructions st') \<union> (X \<union> budget_seen aks [instr])"
  using assms
  by (auto simp: step_def Let_def budget_seen_def set_set_add set_foldl_set_add
      addresses_of_append compute_budget_step_frame split: option.splits sum.splits if_splits)

lemma loop_accounts:
  "loop m aks ins st = Inr st' \<Longrightarrow>
   set (uniqueAccounts st) = addresses_of (detailedInstructions st) \<union> X \<Longrightarrow>
   set (uniqueAccounts st') =
     addresses_of (detailedInstructions st') \<union> (X \<union> budget_seen aks ins)"
proof (induction ins arbitrary: st X)
  case Nil
  then show ?case by (simp add: budget_seen_def)
next
  case (Cons i ins)
  from Cons.prems(1) obtain st1 where s1: "step m aks i st = Inr st1"
    and l1: "loop m aks ins st1 = Inr st'"
    by (auto split: sum.splits)
  from step_accounts[OF s1 Cons.prems(2)]
  have "set (uniqueAccounts st1) =
          addresses_of (detailedInstructions st1) \<union> (X \<union> budget_seen aks [i])" .
  from Cons.IH[OF l1 this] show ?case
    by (simp add: budget_seen_Cons[of aks i ins] Un_assoc)
qed

lemma step_count:
  "step m aks instr st = Inr st' \<Longrightarrow>
   length (detailedInstructions st') =
     length (detailedInstructions st) + length (filter (acted aks) [instr])"
  by (auto simp: step_def acted_def Let_def compute_budget_step_frame
      split: option.splits sum.splits if_splits)

lemma loop_count:
  "loop m aks ins st = Inr st' \<Longrightarrow>
   length (detailedInstructions st') =
     length (detailedInstructions st) + length (filter (acted aks) ins)"
proof (induction ins arbitrary: st)
  case Nil
  then show ?case by simp
next
  case (Cons i ins)
  from Cons.prems obtain st1 where s1: "step m aks i st = Inr st1"
    and l1: "loop m aks ins st1 = Inr st'"
    by (auto split: sum.splits)
  from step_count[OF s1] Cons.IH[OF l1] show ?case by simp
qed

lemma decompileToTS_SomeD:
  assumes "decompileToTS sig p = Inr (Some r)"
  obtains st where
    "loop (message_of p) (accountKeys_of p) (instructions_of p) init_state = Inr st"
    and "r = \<lparr>kind = kind_of (detailedInstructions st), ts_sig = sig,
              ts_instructions = detailedInstructions st,
              ts_accounts = uniqueAccounts st, ts_computeBudget = computeBudget st\<rparr>"
    and "instructions_of p \<noteq> []"
  using assms by (auto simp: decompileToTS_def Let_def split: if_splits sum.splits)

lemma instruction_count:
  assumes "decompileToTS sig p = Inr (Some r)"
  shows "length (ts_instructions r) =
           length (filter (acted (accountKeys_of p)) (instructions_of p))"
proof -
  from assms obtain st where
    l: "loop (message_of p) (accountKeys_of p) (instructions_of p) init_state = Inr st"
    and r: "r = \<lparr>kind = kind_of (detailedInstructions st), ts_sig = sig,
              ts_instructions = detailedInstructions st,
              ts_accounts = uniqueAccounts st, ts_computeBudget = computeBudget st\<rparr>"
    and "instructions_of p \<noteq> []"
    by (rule decompileToTS_SomeD)
  from loop_count[OF l] show ?thesis by (simp add: r init_state_def)
qed

lemma token_not_system: "TOKEN_PROGRAM \<noteq> SYSTEM_PROGRAM"
  by (simp add: program_ids)

section \<open>Facts about the two copies of the normalizer\<close>

lemma memo_ids_include: "pid \<in> MEMO_PROGRAM_IDS \<Longrightarrow> str_includes pid ''Memo''"
  by (auto simp: MEMO_PROGRAM_IDS_def)

lemma programId_of_part000_eq:
  "programId_of_part000 aks instr =
     (case programId_of aks instr of Some pid \<Rightarrow> pid | None \<Rightarrow> ''unknown'')"
  by (auto simp: programId_of_part000_def programId_fallback_part000_def programId_of_def
      programId_fallback_def split: option.splits key_value.splits)

lemma description_agree:
  "memo_recognised pid \<Longrightarrow> description_of_part000 instr pid = description_of instr pid"
  by (auto simp: description_of_part000_def description_of_def memo_recognised_def
      dest: memo_ids_include split: option.splits)

text \<open>
  The two tests of the writable flag give different answers exactly on the band of the
  header.
\<close>

lemma writable_band_iff:
  "writable_band m aks i \<longleftrightarrow>
     (int i < numWritable m aks) \<noteq> (int i < numWritable_part000 m aks)"
  by (auto simp: writable_band_def numWritable_def numWritable_part000_def numSigners_def
      or0_def Let_def split: option.splits)

lemma index_keys_agree:
  "list_all (outside_band m aks) idxs \<Longrightarrow>
   index_keys_part000 m aks idxs = index_keys m aks idxs"
  by (induction idxs)
    (auto simp: index_keys_part000_def index_keys_def outside_band_def writable_band_iff
      split: option.splits)

text \<open>
  The condition on the indices cannot be dropped: one listed index that has an account
  key and lies in the band makes the two lists of account references differ.
\<close>

lemma index_keys_differ:
  assumes "i \<in> set idxs" and "\<not> outside_band m aks i"
  shows "index_keys_part000 m aks idxs \<noteq> index_keys m aks idxs"
  using assms
proof (induction idxs)
  case Nil
  then show ?case by simp
next
  case (Cons j js)
  show ?case
  proof (cases "key_at aks j")
    case None
    with Cons show ?thesis
      by (auto simp: index_keys_part000_def index_keys_def outside_band_def)
  next
    case (Some pk)
    show ?thesis
    proof (cases "i = j")
      case True
      with Cons.prems(2) Some show ?thesis
        by (auto simp: index_keys_part000_def index_keys_def outside_band_def
            writable_band_iff)
    next
      case False
      with Cons have "index_keys_part000 m aks js \<noteq> index_keys m aks js" by simp
      with Some show ?thesis
        by (auto simp: index_keys_part000_def index_keys_def)
    qed
  qed
qed

lemma keys_agree:
  "(case accounts instr of None \<Rightarrow> True | Some idxs \<Rightarrow> list_all (outside_band m aks) idxs) \<Longrightarrow>
   keys_of_part000 m aks instr = keys_of m aks instr"
  by (auto simp: keys_of_part000_def keys_of_def index_keys_agree split: option.splits)

lemma step_agree:
  assumes "variants_agree_on m aks instr"
  shows "step_part000 m aks instr st = step m aks instr st"
proof -
  from assms obtain pid where pid: "programId_of aks instr = Some pid"
    by (auto simp: variants_agree_on_def split: option.splits)
  then have p0: "programId_of_part000 aks instr = pid"
    by (simp add: programId_of_part000_eq)
  show ?thesis
  proof (cases "pid = COMPUTE_BUDGET_PROGRAM")
    case True
    then show ?thesis by (simp add: step_part000_def step_def pid p0 Let_def)
  next
    case False
    with assms pid have mr: "memo_recognised pid"
      and "case accounts instr of None \<Rightarrow> True
           | Some idxs \<Rightarrow> list_all (outside_band m aks) idxs"
      by (auto simp: variants_agree_on_def)
    then have k: "keys_of_part000 m aks instr = keys_of m aks instr"
      by (simp add: keys_agree)
    from mr show ?thesis
      by (simp add: step_part000_def step_def pid p0 Let_def description_agree k False
          split: sum.splits)
  qed
qed

lemma loop_agree:
  "list_all (variants_agree_on m aks) ins \<Longrightarrow> loop_part000 m aks ins st = loop m aks ins st"
  by (induction ins arbitrary: st) (auto simp: step_agree split: sum.splits)

lemma step_programIds:
  assumes "step m aks instr st = Inr st'"
    and "list_all (\<lambda>d. memo_recognised (d_programId d)) (detailedInstructions st)"
    and "variants_agree_on m aks instr"
  shows "list_all (\<lambda>d. memo_recognised (d_programId d)) (detailedInstructions st')"
  using assms
  by (auto simp: step_def Let_def variants_agree_on_def compute_budget_step_frame
      split: option.splits sum.splits if_splits)

lemma loop_programIds:
  "loop m aks ins st = Inr st' \<Longrightarrow>
   list_all (\<lambda>d. memo_recognised (d_programId d)) (detailedInstructions st) \<Longrightarrow>
   list_all (variants_agree_on m aks) ins \<Longrightarrow>
   list_all (\<lambda>d. memo_recognised (d_programId d)) (detailedInstructions st')"
proof (induction ins arbitrary: st)
  case Nil
  then show ?case by simp
next
  case (Cons i ins)
  from Cons.prems(1) obtain st1 where s1: "step m aks i st = Inr st1"
    and l1: "loop m aks ins st1 = Inr st'"
    by (auto split: sum.splits)
  from Cons.prems(3) have a: "variants_agree_on m aks i"
    and b: "list_all (variants_agree_on m aks) ins"
    by simp_all
  from Cons.IH[OF l1 step_programIds[OF s1 Cons.prems(2) a] b] show ?case .
qed

lemma kind_agree:
  "list_all (\<lambda>d. memo_recognised (d_programId d)) ds \<Longrightarrow> kind_of_part000 ds = kind_of ds"
  by (cases ds)
    (auto simp: kind_of_part000_def kind_of_def memo_recognised_def Let_def
      dest: memo_ids_include)

section \<open>Facts about the cache\<close>














section \<open>Facts about the fetch client and the batch run\<close>

lemma warned_mono: "warned cfg (Suc a) ev \<Longrightarrow> warned cfg a ev"
  by (auto simp: warned_def split: event.splits)

lemma attempt_once_console:
  assumes "attempt_once cfg net sig (Suc a) w = (r, w')" and "a < MAX_RETRIES cfg"
  shows "\<exists>new. console w' = console w @ new \<and> list_all (warned cfg a) new"
  using assms
  by (auto simp: attempt_once_def nextRpc_def send_def on_error_def on_success_def
      writeCache_def warned_def Let_def
      split: if_splits prod.splits option.splits response.splits)

lemma attempt_once_sent:
  assumes "attempt_once cfg net sig n w = (r, w')"
  shows "requests_sent w \<le> requests_sent w' \<and>
         (RPC_LIST cfg \<noteq> [] \<and> rpcIndex w \<noteq> None \<longrightarrow> requests_sent w < requests_sent w')"
  using assms
  by (auto simp: attempt_once_def nextRpc_def send_def on_error_def on_success_def
      writeCache_def Let_def split: if_splits prod.splits option.splits response.splits)

text \<open>
  Every warning of the loop carries an attempt number from 1 to \<^verbatim>\<open>MAX_RETRIES\<close> and the
  back-off computed for that number; the loop prints nothing else.
\<close>

lemma fetch_loop_console:
  "\<exists>new. console (snd (fetch_loop cfg net sig a w)) = console w @ new \<and>
         list_all (warned cfg a) new"
proof (induction cfg net sig a w rule: fetch_loop.induct)
  case (1 cfg net sig a w)
  show ?case
  proof (cases "a < MAX_RETRIES cfg")
    case False
    then show ?thesis by (simp add: fetch_loop.simps)
  next
    case True
    obtain r w' where ao: "attempt_once cfg net sig (Suc a) w = (r, w')"
      by (cases "attempt_once cfg net sig (Suc a) w")
    from attempt_once_console[OF ao True] obtain new1 where
      n1: "console w' = console w @ new1" "list_all (warned cfg a) new1" by blast
    show ?thesis
    proof (cases r)
      case (Some res)
      with True ao n1 show ?thesis by (simp add: fetch_loop.simps[of cfg net sig a w])
    next
      case None
      from "1.IH"[OF True ao[symmetric] None] obtain new2 where
        n2: "console (snd (fetch_loop cfg net sig (Suc a) w')) = console w' @ new2"
          "list_all (warned cfg (Suc a)) new2" by blast
      from n2(2) have "list_all (warned cfg a) new2"
        by (auto simp: list_all_iff dest: warned_mono)
      with True ao None n1 n2(1) show ?thesis
        by (simp add: fetch_loop.simps[of cfg net sig a w])
    qed
  qed
qed

lemma fetch_loop_sent:
  "requests_sent w \<le> requests_sent (snd (fetch_loop cfg net sig a w))"
proof (induction cfg net sig a w rule: fetch_loop.induct)
  case (1 cfg net sig a w)
  show ?case
  proof (cases "a < MAX_RETRIES cfg")
    case False
    then show ?thesis by (simp add: fetch_loop.simps)
  next
    case True
    obtain r w' where ao: "attempt_once cfg net sig (Suc a) w = (r, w')"
      by (cases "attempt_once cfg net sig (Suc a) w")
    from attempt_once_sent[OF ao] have le: "requests_sent w \<le> requests_sent w'" by simp
    show ?thesis
    proof (cases r)
      case (Some res)
      with True ao le show ?thesis by (simp add: fetch_loop.simps[of cfg net sig a w])
    next
      case None
      from "1.IH"[OF True ao[symmetric] None] le True ao None show ?thesis
        by (simp add: fetch_loop.simps[of cfg net sig a w])
    qed
  qed
qed

text \<open>
  The counter of requests is not idle: a fetch of an identifier that is not cached sends
  at least one request when there is an endpoint and an attempt to spend.
\<close>

lemma uncached_fetch_sends:
  assumes "cache w sig = None" and "RPC_LIST cfg \<noteq> []" and "rpcIndex w \<noteq> None"
    and "0 < MAX_RETRIES cfg"
  shows "requests_sent w < requests_sent (snd (fetchParsedTx cfg net sig w))"
proof -
  obtain r w' where ao: "attempt_once cfg net sig (Suc 0) w = (r, w')"
    by (cases "attempt_once cfg net sig (Suc 0) w")
  from attempt_once_sent[OF ao] assms(2,3) have lt: "requests_sent w < requests_sent w'"
    by simp
  show ?thesis
  proof (cases r)
    case (Some res)
    with assms ao lt show ?thesis
      by (simp add: fetchParsedTx_def fetch_loop.simps[of cfg net sig 0 w])
  next
    case None
    from fetch_loop_sent[of w' cfg net sig "Suc 0"] lt
    have "requests_sent w < requests_sent (snd (fetch_loop cfg net sig (Suc 0) w'))"
      by simp
    with assms ao None show ?thesis
      by (simp add: fetchParsedTx_def fetch_loop.simps[of cfg net sig 0 w])
  qed
qed

subsection \<open>What each step leaves unchanged\<close>

lemma nextRpc_frame:
  "nextRpc cfg w = (r, w') \<Longrightarrow>
   requests_sent w' = requests_sent w \<and> console w' = console w \<and> cache w' = cache w \<and>
   started w' = started w \<and> waits w' = waits w"
  by (auto simp: nextRpc_def Let_def)

lemma send_frame:
  "send net req w = (r, w') \<Longrightarrow>
   console w' = console w \<and> cache w' = cache w \<and> started w' = started w \<and> waits w' = waits w"
  by (auto simp: send_def)

lemma on_error_frame:
  "started (on_error rpc sig a msg w) = started w"
  "console (on_error rpc sig a msg w) = console w @ [Warn rpc a sig msg (backoff_ms (is429 msg) a)]"
  "waits (on_error rpc sig a msg w) = waits w @ [backoff_ms (is429 msg) a]"
  by (simp_all add: on_error_def Let_def)

lemma on_success_frame:
  "started (on_success rpc sig obj w) = started w"
  "console (on_success rpc sig obj w) = console w"
  "waits (on_success rpc sig obj w) = waits w"
  by (simp_all add: on_success_def writeCache_def)

lemma map_filter_finished_append:
  "List.map_filter finished (xs @ ys) =
     List.map_filter finished xs @ List.map_filter finished ys"
  by (simp add: List.map_filter_def)

lemma finish_frame:
  "started (finish sig r w) = started w"
  "processed (finish sig r w) = processed w @ [sig]"
  by (auto simp: finish_def processed_def map_filter_finished_append List.map_filter_def Let_def
      split: sum.splits option.splits)

lemma processed_console: "console w' = console w \<Longrightarrow> processed w' = processed w"
  by (simp add: processed_def)

lemma processed_started: "processed (w\<lparr>started := s\<rparr>) = processed w"
  by (simp add: processed_def)

lemma processed_waits: "processed (w\<lparr>waits := s\<rparr>) = processed w"
  by (simp add: processed_def)

lemma processed_on_error: "processed (on_error rpc sig a msg w) = processed w"
  by (simp add: processed_def on_error_frame map_filter_finished_append List.map_filter_def)

lemma enter_loop_frame:
  assumes "enter_loop cfg sig a w = (p', w')"
  shows "p' \<noteq> Fresh \<and> p' \<noteq> Over \<and> started w' = started w \<and> processed w' = processed w \<and>
         rank cfg p' < 4 * (MAX_RETRIES cfg - a) + 2"
  using assms
  by (auto simp: enter_loop_def split: if_splits prod.splits dest!: nextRpc_frame
      intro: processed_console)

lemma task_step_frame:
  assumes "task_step cfg net sig p w = (p', w')" and "p \<noteq> Over"
  shows "p' \<noteq> Fresh \<and> rank cfg p' < rank cfg p \<and>
         started w' = started w @ (if p = Fresh then [sig] else []) \<and>
         processed w' = processed w @ (if p' = Over then [sig] else [])"
proof (cases p)
  case Fresh
  show ?thesis
  proof (cases "cache w sig")
    case None
    with assms Fresh
    have "enter_loop cfg sig 0 (w\<lparr>started := started w @ [sig]\<rparr>) = (p', w')"
      by (simp add: Let_def)
    from enter_loop_frame[OF this] Fresh show ?thesis
      by (simp add: processed_started)
  next
    case (Some obj)
    with assms Fresh show ?thesis
      by (auto simp: Let_def finish_frame processed_started)
  qed
next
  case (AtNextRpc n rpc)
  with assms show ?thesis
    by (cases rpc) (auto simp: send_def processed_def)
next
  case (AtParsed n rpc resp)
  with assms show ?thesis
    by (auto simp: send_def processed_on_error on_error_frame on_success_frame
        split: response.splits option.splits intro: processed_console)
next
  case (AtRaw n rpc resp)
  with assms show ?thesis
    by (auto simp: processed_on_error on_error_frame on_success_frame processed_waits
        split: response.splits option.splits intro: processed_console)
next
  case (AtWait n)
  with assms have "enter_loop cfg sig n w = (p', w')" by simp
  from enter_loop_frame[OF this] AtWait show ?thesis by simp
next
  case (AtResult r)
  with assms show ?thesis by (auto simp: finish_frame)
next
  case Over
  with assms show ?thesis by simp
qed

subsection \<open>The numbers of the back-off\<close>

lemma odd_part_odd: "odd n \<Longrightarrow> odd_part n = n"
  by (simp add: odd_part.simps)

lemma odd_part_double: "odd_part (2 * n) = odd_part n"
  by (subst odd_part.simps) (simp add: odd_part.simps[of 0])

lemma odd_part_shift: "odd_part (2 ^ k * n) = odd_part n"
  by (induction k) (simp_all add: odd_part_double mult.assoc)

lemma odd_part_1000: "odd_part (1000 * n) = odd_part (125 * n)"
proof -
  have "(1000::nat) * n = 2 ^ 3 * (125 * n)" by simp
  then show ?thesis by (simp only: odd_part_shift)
qed

lemma pow3_bound: "n \<le> 29 \<Longrightarrow> (125::nat) * 3 ^ n < 2 ^ 53"
proof -
  assume "n \<le> 29"
  then have "(3::nat) ^ n \<le> 3 ^ 29" by (rule power_increasing) simp
  then have "(125::nat) * 3 ^ n \<le> 125 * 3 ^ 29" by simp
  also have "\<dots> < 2 ^ 53" by simp
  finally show ?thesis .
qed

lemma representable_pow3:
  assumes "n \<le> 29"
  shows "representable (3 ^ n)" and "representable (1000 * 3 ^ n)"
proof -
  from pow3_bound[OF assms] have b: "(125::nat) * 3 ^ n < 2 ^ 53" .
  have "(2::nat) ^ 53 * 8 \<le> 2 ^ 1024" by simp
  with b have big: "(1000::nat) * 3 ^ n < 2 ^ 1024" by simp
  have o: "odd ((3::nat) ^ n)" "odd ((125::nat) * 3 ^ n)" by simp_all
  from b have "(3::nat) ^ n < 2 ^ 53" by simp
  with big o(1) show "representable (3 ^ n)"
    by (simp add: representable_def odd_part_odd)
  from b big o(2) show "representable (1000 * 3 ^ n)"
    by (simp add: representable_def odd_part_1000 odd_part_odd)
qed

lemma odd_part_pow2: "odd_part (2 ^ n) = 1"
  using odd_part_shift[of n 1] by (simp add: odd_part_odd)

lemma odd_part_1000_pow2: "odd_part (1000 * 2 ^ n) = 125"
proof -
  have "(1000::nat) * 2 ^ n = 2 ^ (n + 3) * 125" by (simp add: power_add)
  then show ?thesis by (simp only: odd_part_shift) (simp add: odd_part_odd)
qed

lemma representable_pow2:
  assumes "n \<le> 1014"
  shows "representable (2 ^ n)" and "representable (1000 * 2 ^ n)"
proof -
  from assms have "(2::nat) ^ n \<le> 2 ^ 1014" by (intro power_increasing) simp_all
  then have "(1000::nat) * 2 ^ n \<le> 1000 * 2 ^ 1014" by simp
  also have "\<dots> < 2 ^ 1024" by simp
  finally have big: "(1000::nat) * 2 ^ n < 2 ^ 1024" .
  then have "(2::nat) ^ n < 2 ^ 1024" by simp
  then show "representable (2 ^ n)"
    by (simp add: representable_def odd_part_pow2)
  from big show "representable (1000 * 2 ^ n)"
    by (simp add: representable_def odd_part_1000_pow2)
qed

lemma backoff_ms_rate_limited:
  "n \<le> 29 \<Longrightarrow> backoff_ms True n = Exact (1000 * 3 ^ n)"
  by (simp add: backoff_ms_def js_pow_def js_times_def to_double_def BASE_BACKOFF_MS_def
      representable_pow3)

lemma backoff_ms_other:
  "n \<le> 1014 \<Longrightarrow> backoff_ms False n = Exact (1000 * 2 ^ n)"
  by (simp add: backoff_ms_def js_pow_def js_times_def to_double_def BASE_BACKOFF_MS_def
      representable_pow2)



lemma attempt_once_thrown:
  assumes "nextRpc cfg w = (Some rpc, v)"
    and "failure net (requests_sent w) rpc sig = Some msg"
  shows "\<exists>u. attempt_once cfg net sig n w = (None, u) \<and>
           waits u = waits w @ [backoff_ms (is429 msg) n] \<and>
           console u = console w @ [Warn rpc n sig msg (backoff_ms (is429 msg) n)]"
proof -
  from nextRpc_frame[OF assms(1)] have f: "requests_sent v = requests_sent w"
    "waits v = waits w" "console v = console w" by simp_all
  from assms f show ?thesis
    by (auto simp: attempt_once_def failure_def send_def on_error_frame
        split: response.splits option.splits)
qed

lemma attempt_once_not_found:
  assumes "nextRpc cfg w = (Some rpc, v)"
    and "net (requests_sent w) (GetParsedTransaction rpc sig) = Returned None"
    and "net (Suc (requests_sent w)) (GetTransaction rpc sig) = Returned None"
  shows "\<exists>u. attempt_once cfg net sig n w = (None, u) \<and>
           waits u = waits w @ [backoff_ms False n] \<and> console u = console w"
proof -
  from nextRpc_frame[OF assms(1)] have f: "requests_sent v = requests_sent w"
    "waits v = waits w" "console v = console w" by simp_all
  from assms f show ?thesis
    by (auto simp: attempt_once_def send_def)
qed


lemma is429_busy: "is429 ''429 Too Many Requests''"
  by (simp add: is429_def)

lemma is429_timeout: "\<not> is429 ''timeout''"
  by (simp add: is429_def)



lemma attempt_once_rpcIndex:
  "RPC_LIST cfg \<noteq> [] \<Longrightarrow> rpcIndex w \<noteq> None \<Longrightarrow> attempt_once cfg net sig n w = (r, u) \<Longrightarrow>
   rpcIndex u \<noteq> None"
  by (auto simp: attempt_once_def nextRpc_def send_def on_error_def on_success_def
      writeCache_def Let_def split: prod.splits option.splits response.splits if_splits)

lemma nextRpc_endpoint:
  "RPC_LIST cfg \<noteq> [] \<Longrightarrow> rpcIndex w \<noteq> None \<Longrightarrow> \<exists>rpc v. nextRpc cfg w = (Some rpc, v)"
  by (auto simp: nextRpc_def Let_def)

text \<open>
  When every request is rejected with the same message, the loop waits once per attempt,
  for the attempts from the first to the last of the budget.
\<close>

lemma fetch_loop_all_thrown:
  assumes "RPC_LIST cfg \<noteq> []" and "\<And>k req. net k req = Thrown msg"
  shows "rpcIndex w \<noteq> None \<Longrightarrow>
         waits (snd (fetch_loop cfg net sig a w)) =
           waits w @ map (backoff_ms (is429 msg)) [Suc a..<Suc (MAX_RETRIES cfg)]"
proof (induction "MAX_RETRIES cfg - a" arbitrary: a w rule: less_induct)
  case less
  show ?case
  proof (cases "a < MAX_RETRIES cfg")
    case False
    then show ?thesis by (simp add: fetch_loop.simps)
  next
    case True
    from nextRpc_endpoint[OF assms(1) less.prems] obtain rpc v where
      n: "nextRpc cfg w = (Some rpc, v)" by blast
    have "failure net (requests_sent w) rpc sig = Some msg"
      by (simp add: failure_def assms(2))
    from attempt_once_thrown[OF n this, of "Suc a"] obtain u where
      u: "attempt_once cfg net sig (Suc a) w = (None, u)"
        "waits u = waits w @ [backoff_ms (is429 msg) (Suc a)]" by blast
    from attempt_once_rpcIndex[OF assms(1) less.prems u(1)] have r: "rpcIndex u \<noteq> None" .
    from True have "MAX_RETRIES cfg - Suc a < MAX_RETRIES cfg - a" by simp
    moreover from True
    have "[Suc a..<Suc (MAX_RETRIES cfg)] = Suc a # [Suc (Suc a)..<Suc (MAX_RETRIES cfg)]"
      by (intro upt_conv_Cons) simp
    ultimately show ?thesis using less.hyps[OF _ r, of "Suc a"] u True
      by (simp add: fetch_loop.simps[of cfg net sig a w] del: upt_Suc)
  qed
qed

lemma fetch_all_thrown:
  assumes "RPC_LIST cfg \<noteq> []" and "\<And>k req. net k req = Thrown msg"
    and "rpcIndex w \<noteq> None" and "cache w sig = None"
  shows "waits (snd (fetchParsedTx cfg net sig w)) =
           waits w @ map (backoff_ms (is429 msg)) [1..<Suc (MAX_RETRIES cfg)]"
  using fetch_loop_all_thrown[OF assms(1,2,3), where sig = sig and a = 0] assms(4)
  by (simp add: fetchParsedTx_def del: upt_Suc)

lemma default_backoff_schedule:
  "waits (snd (fetchParsedTx default_config busy_network ''sigA'' initial_world)) =
     [Exact 3000, Exact 9000, Exact 27000, Exact 81000, Exact 243000]"
  "waits (snd (fetchParsedTx default_config dead_network ''sigA'' initial_world)) =
     [Exact 2000, Exact 4000, Exact 8000, Exact 16000, Exact 32000]"
proof -
  have l: "[Suc 0..<6] = [1, 2, 3, 4, 5]" by (simp add: upt_rec)
  have i: "RPC_LIST default_config \<noteq> []" "rpcIndex initial_world \<noteq> None"
    "cache initial_world ''sigA'' = None" "waits initial_world = []"
    "MAX_RETRIES default_config = 5"
    by (simp_all add: default_config_def initial_world_def)
  from fetch_all_thrown[OF i(1) _ i(2,3), of busy_network "''429 Too Many Requests''"] i(4,5)
  show "waits (snd (fetchParsedTx default_config busy_network ''sigA'' initial_world)) =
     [Exact 3000, Exact 9000, Exact 27000, Exact 81000, Exact 243000]"
    by (simp add: busy_network_def is429_busy l backoff_ms_rate_limited)
  from fetch_all_thrown[OF i(1) _ i(2,3), of dead_network "''timeout''"] i(4,5)
  show "waits (snd (fetchParsedTx default_config dead_network ''sigA'' initial_world)) =
     [Exact 2000, Exact 4000, Exact 8000, Exact 16000, Exact 32000]"
    by (simp add: dead_network_def is429_timeout l backoff_ms_other)
qed


subsection \<open>Calls that run together\<close>

lemma resume_frame:
  assumes "resume cfg net i ts w = (ts', w')" and "i < length ts" and "suspended ts"
  shows "suspended ts' \<and> total_rank cfg ts' < total_rank cfg ts \<and>
         started w' = started w \<and>
         (\<exists>ps. processed w' = processed w @ ps \<and>
               mset ps + mset (map fst ts') = mset (map fst ts))"
proof -
  obtain sig p where t: "ts ! i = (sig, p)" by (cases "ts ! i")
  obtain p' w1 where s: "task_step cfg net sig p w = (p', w1)"
    by (cases "task_step cfg net sig p w")
  from assms(2,3) t have p: "p \<noteq> Over" "p \<noteq> Fresh"
    by (auto simp: suspended_def list_all_length)
  from task_step_frame[OF s p(1)] p(2)
  have f: "p' \<noteq> Fresh" "rank cfg p' < rank cfg p" "started w1 = started w"
    "processed w1 = processed w @ (if p' = Over then [sig] else [])"
    by simp_all
  have ts: "ts = take i ts @ (sig, p) # drop (Suc i) ts"
    using assms(2) t by (metis id_take_nth_drop)
  have sus: "suspended (take i ts)" "suspended (drop (Suc i) ts)"
    using assms(3) by (auto simp: suspended_def list_all_iff dest: in_set_takeD in_set_dropD)
  have tr: "total_rank cfg ts =
      total_rank cfg (take i ts) + rank cfg p + total_rank cfg (drop (Suc i) ts)"
    by (subst ts) (simp add: total_rank_def)
  have ms: "mset (map fst ts) =
      mset (map fst (take i ts)) + {#sig#} + mset (map fst (drop (Suc i) ts))"
    by (subst ts) simp
  show ?thesis
  proof (cases "p' = Over")
    case True
    with assms(1) t s have e: "ts' = take i ts @ drop (Suc i) ts" "w' = w1"
      by (simp_all add: resume_def)
    from p have "0 < rank cfg p" by (cases p) simp_all
    with e sus f True tr ms show ?thesis
      by (auto simp: suspended_def total_rank_def)
  next
    case False
    with assms(1) t s have e: "ts' = ts[i := (sig, p')]" "w' = w1"
      by (simp_all add: resume_def)
    have e2: "ts' = take i ts @ (sig, p') # drop (Suc i) ts"
      using assms(2) e(1) by (simp add: upd_conv_take_nth_drop)
    from e2 e(2) sus f False tr ms show ?thesis
      by (auto simp: suspended_def total_rank_def)
  qed
qed

lemma pump_total:
  assumes "suspended ts"
  shows "\<exists>w' ps. pump cfg net sched k ts w = Some w' \<and> started w' = started w \<and>
           processed w' = processed w @ ps \<and> mset ps = mset (map fst ts)"
  using assms
proof (induction "total_rank cfg ts" arbitrary: ts w k rule: less_induct)
  case less
  show ?case
  proof (cases "ts = []")
    case True
    then show ?thesis by (subst pump.simps) simp
  next
    case False
    let ?i = "sched k mod length ts"
    from False have i: "?i < length ts" by simp
    obtain ts1 w1 where r: "resume cfg net ?i ts w = (ts1, w1)"
      by (cases "resume cfg net ?i ts w")
    from resume_frame[OF r i less.prems] obtain ps1 where
      f: "suspended ts1" "total_rank cfg ts1 < total_rank cfg ts" "started w1 = started w"
        "processed w1 = processed w @ ps1" "mset ps1 + mset (map fst ts1) = mset (map fst ts)"
      by blast
    from less.hyps[OF f(2) f(1), of "Suc k" w1] obtain w' ps2 where
      g: "pump cfg net sched (Suc k) ts1 w1 = Some w'" "started w' = started w1"
        "processed w' = processed w1 @ ps2" "mset ps2 = mset (map fst ts1)"
      by blast
    from f g have "processed w' = processed w @ (ps1 @ ps2)"
      and "mset (ps1 @ ps2) = mset (map fst ts)" and "started w' = started w"
      by simp_all
    moreover from False r g(1) have "pump cfg net sched k ts w = Some w'"
      by (subst pump.simps) simp
    ultimately show ?thesis by blast
  qed
qed

lemma start_batch_frame:
  "start_batch cfg net batch w = (ts, w') \<Longrightarrow>
   map fst ts = batch \<and> list_all (\<lambda>t. snd t \<noteq> Fresh) ts \<and>
   started w' = started w @ batch \<and>
   processed w' = processed w @ map fst (filter (\<lambda>t. snd t = Over) ts)"
proof (induction batch arbitrary: w ts w')
  case Nil
  then show ?case by simp
next
  case (Cons sig rest)
  obtain p w1 where s: "task_step cfg net sig Fresh w = (p, w1)"
    by (cases "task_step cfg net sig Fresh w")
  obtain ts2 w2 where b: "start_batch cfg net rest w1 = (ts2, w2)"
    by (cases "start_batch cfg net rest w1")
  from Cons.prems s b have e: "ts = (sig, p) # ts2" "w' = w2" by simp_all
  from task_step_frame[OF s] have f: "p \<noteq> Fresh" "started w1 = started w @ [sig]"
    "processed w1 = processed w @ (if p = Over then [sig] else [])" by simp_all
  from Cons.IH[OF b] f e show ?case by simp
qed

lemma run_batch_total:
  "\<exists>w' ps. run_batch cfg net sched batch w = Some w' \<and> started w' = started w @ batch \<and>
     processed w' = processed w @ ps \<and> mset ps = mset batch"
proof -
  obtain ts w1 where b: "start_batch cfg net batch w = (ts, w1)"
    by (cases "start_batch cfg net batch w")
  from start_batch_frame[OF b] have f: "map fst ts = batch"
    "list_all (\<lambda>t. snd t \<noteq> Fresh) ts" "started w1 = started w @ batch"
    "processed w1 = processed w @ map fst (filter (\<lambda>t. snd t = Over) ts)" by simp_all
  from f(2) have "suspended (live ts)"
    by (auto simp: suspended_def live_def list_all_iff)
  from pump_total[OF this, of cfg net sched 0 w1] obtain w' ps where
    g: "pump cfg net sched 0 (live ts) w1 = Some w'" "started w' = started w1"
      "processed w' = processed w1 @ ps" "mset ps = mset (map fst (live ts))" by blast
  have "mset (map fst (filter (\<lambda>t. snd t = Over) ts)) + mset (map fst (live ts)) =
      mset (map fst ts)"
    unfolding live_def by (induction ts) auto
  with f g have "processed w' = processed w @ (map fst (filter (\<lambda>t. snd t = Over) ts) @ ps)"
    and "mset (map fst (filter (\<lambda>t. snd t = Over) ts) @ ps) = mset batch"
    and "started w' = started w @ batch"
    by simp_all
  moreover from b g(1) have "run_batch cfg net sched batch w = Some w'"
    by (simp add: run_batch_def)
  ultimately show ?thesis by blast
qed

lemma windows_Nil: "windows W [] = []"
  by (simp add: windows.simps)

lemma windows_full:
  "0 < W \<Longrightarrow> length a = W \<Longrightarrow> windows W (a @ b) = a # windows W b"
  by (subst windows.simps) auto

lemma windows_last:
  "0 < W \<Longrightarrow> a \<noteq> [] \<Longrightarrow> length a \<le> W \<Longrightarrow> windows W a = [a]"
  by (subst windows.simps) (simp add: windows_Nil)

lemma concat_windows: "0 < W \<Longrightarrow> concat (windows W xs) = xs"
proof (induction W xs rule: windows.induct)
  case (1 W xs)
  then show ?case by (subst windows.simps) simp
qed

lemma windows_mset:
  assumes "0 < W" and "map mset (windows W ps) = map mset (windows W xs)"
  shows "mset ps = mset xs"
proof -
  have "mset ps = sum_list (map mset (windows W ps))"
    using concat_windows[OF assms(1), of ps] by (metis mset_concat)
  also have "\<dots> = sum_list (map mset (windows W xs))" by (simp add: assms(2))
  also have "\<dots> = mset xs"
    using concat_windows[OF assms(1), of xs] by (metis mset_concat)
  finally show ?thesis .
qed

lemma run_loop_total:
  assumes "0 < CONCURRENCY cfg"
  shows "\<exists>w' ps. run_loop cfg net sched sigs i w = Some w' \<and>
           started w' = started w @ drop i sigs \<and>
           processed w' = processed w @ ps \<and>
           map mset (windows (CONCURRENCY cfg) ps) =
             map mset (windows (CONCURRENCY cfg) (drop i sigs))"
proof (induction "length sigs - i" arbitrary: i w rule: less_induct)
  case less
  let ?W = "CONCURRENCY cfg"
  show ?case
  proof (cases "i < length sigs")
    case False
    then show ?thesis by (subst run_loop.simps) (simp add: windows_Nil)
  next
    case True
    let ?b = "take ?W (drop i sigs)"
    from run_batch_total[of cfg net "sched i" ?b w] obtain w1 ps1 where
      b: "run_batch cfg net (sched i) ?b w = Some w1" "started w1 = started w @ ?b"
        "processed w1 = processed w @ ps1" "mset ps1 = mset ?b" by blast
    from True assms have "length sigs - (i + ?W) < length sigs - i" by simp
    from less[OF this, of w1] obtain w' ps2 where
      r: "run_loop cfg net sched sigs (i + ?W) w1 = Some w'"
        "started w' = started w1 @ drop (i + ?W) sigs"
        "processed w' = processed w1 @ ps2"
        "map mset (windows ?W ps2) = map mset (windows ?W (drop (i + ?W) sigs))" by blast
    have dd: "drop (i + ?W) sigs = drop ?W (drop i sigs)"
      by (simp add: add.commute)
    have split: "?b @ drop (i + ?W) sigs = drop i sigs"
      unfolding dd by (rule append_take_drop_id)
    from b(4) have len: "length ps1 = length ?b" by (metis size_mset)
    from True have ne: "?b \<noteq> []" using assms by simp
    have "map mset (windows ?W (ps1 @ ps2)) = map mset (windows ?W (drop i sigs))"
    proof (cases "length ?b = ?W")
      case True
      with len assms have "windows ?W (ps1 @ ps2) = ps1 # windows ?W ps2"
        by (simp add: windows_full)
      moreover from True assms have "windows ?W (?b @ drop (i + ?W) sigs) =
          ?b # windows ?W (drop (i + ?W) sigs)"
        by (simp add: windows_full)
      ultimately show ?thesis using r(4) b(4) by (simp add: split)
    next
      case False
      then have short: "length (drop i sigs) < ?W" by auto
      then have e: "drop (i + ?W) sigs = []" "?b = drop i sigs" by simp_all
      from r(4) e(1) have "windows ?W ps2 = []" by (simp add: windows_Nil)
      then have "ps2 = []" using assms
        by (subst (asm) windows.simps) (auto split: if_splits)
      moreover from len ne e(2) short assms have "windows ?W ps1 = [ps1]"
        by (intro windows_last) auto
      moreover from ne e(2) short assms have "windows ?W (drop i sigs) = [drop i sigs]"
        by (intro windows_last) auto
      ultimately show ?thesis using b(4) e(2) by simp
    qed
    moreover have "started w' = started w @ drop i sigs"
      using b(2) r(2) split by (metis append.assoc)
    moreover from b r have "processed w' = processed w @ (ps1 @ ps2)" by simp
    moreover from True b(1) r(1) have "run_loop cfg net sched sigs i w = Some w'"
      by (subst run_loop.simps) simp
    ultimately show ?thesis by blast
  qed
qed

lemma indexOf_None: "indexOf xs x = None \<longleftrightarrow> x \<notin> set xs"
  by (induction xs) auto

lemma indexOf_Some:
  "indexOf xs x = Some k \<Longrightarrow> k < length xs \<and> xs ! k = x \<and> x \<notin> set (take k xs)"
  by (induction xs arbitrary: k) (auto split: if_splits)

lemma windows_one:
  "map mset (windows (Suc 0) ps) = map mset (windows (Suc 0) xs) \<Longrightarrow> ps = xs"
proof (induction ps arbitrary: xs)
  case Nil
  then show ?case by (cases xs) (simp_all add: windows.simps[of _ "[]"] windows.simps[of _ "_ # _"])
next
  case (Cons p ps)
  then show ?case
    by (cases xs) (simp_all add: windows.simps[of _ "[]"] windows.simps[of _ "_ # _"])
qed

lemma enter_loop_cache:
  "enter_loop cfg sig a w = (p', w') \<Longrightarrow> cache w' = cache w"
  by (auto simp: enter_loop_def split: if_splits prod.splits dest!: nextRpc_frame)

lemma cached_overtakes:
  assumes "cache w c = None" and "cache w d = Some obj"
  shows "\<exists>w'. run_batch cfg net sched [c, d] w = Some w' \<and>
           started w' = started w @ [c, d] \<and> processed w' = processed w @ [d, c]"
proof -
  let ?w0 = "w\<lparr>started := started w @ [c]\<rparr>"
  obtain p1 w1 where e: "enter_loop cfg c 0 ?w0 = (p1, w1)"
    by (cases "enter_loop cfg c 0 ?w0")
  from enter_loop_frame[OF e] have f: "p1 \<noteq> Fresh" "p1 \<noteq> Over" "started w1 = started w @ [c]"
    "processed w1 = processed w" by (simp_all add: processed_started)
  from enter_loop_cache[OF e] assms(2) have c1: "cache w1 d = Some obj" by simp
  let ?w2 = "finish d (Inr obj) (w1\<lparr>started := started w1 @ [d]\<rparr>)"
  from assms(1) e c1 have sb: "start_batch cfg net [c, d] w = ([(c, p1), (d, Over)], ?w2)"
    by (simp add: Let_def)
  from f have "suspended [(c, p1)]" by (simp add: suspended_def)
  from pump_total[OF this, of cfg net sched 0 ?w2] obtain w' ps where
    g: "pump cfg net sched 0 [(c, p1)] ?w2 = Some w'" "started w' = started ?w2"
      "processed w' = processed ?w2 @ ps" "mset ps = mset [c]" by auto
  from g(4) have "ps = [c]" by (metis mset_single_iff_right mset.simps(1,2) mset_zero_iff)
  with g f sb show ?thesis
    by (simp add: run_batch_def live_def finish_frame processed_started)
qed

lemma pump_single:
  "pump cfg net sched k [(sig, p)] w =
     (case task_step cfg net sig p w of
        (p', w') \<Rightarrow> if p' = Over then Some w' else pump cfg net sched (Suc k) [(sig, p')] w')"
  by (subst pump.simps) (simp add: resume_def pump.simps[of _ _ _ _ "[]"] split: prod.splits)

lemma pump_AtResult:
  "pump cfg net sched k [(sig, AtResult r)] w = Some (finish sig r w)"
  by (subst pump_single) simp

lemma pump_AtNextRpc:
  "pump cfg net sched k [(sig, AtNextRpc n rpc)] w =
     (case rpc of
        None \<Rightarrow> Some (finish sig (Inl InvalidEndpoint) w)
      | Some r \<Rightarrow>
          (case send net (GetParsedTransaction r sig) w of
             (resp, w') \<Rightarrow> pump cfg net sched (Suc k) [(sig, AtParsed n r resp)] w'))"
  by (subst pump_single) (simp add: pump_AtResult split: option.splits prod.splits)

lemma pump_AtParsed:
  "pump cfg net sched k [(sig, AtParsed n rpc resp)] w =
     (case resp of
        Thrown msg \<Rightarrow> pump cfg net sched (Suc k) [(sig, AtWait n)] (on_error rpc sig n msg w)
      | Returned (Some obj) \<Rightarrow> Some (finish sig (Inr obj) (on_success rpc sig obj w))
      | Returned None \<Rightarrow>
          (case send net (GetTransaction rpc sig) w of
             (resp', w') \<Rightarrow> pump cfg net sched (Suc k) [(sig, AtRaw n rpc resp')] w'))"
  by (subst pump_single)
    (simp add: pump_AtResult split: option.splits prod.splits response.splits)

lemma pump_AtRaw:
  "pump cfg net sched k [(sig, AtRaw n rpc resp)] w =
     (case resp of
        Thrown msg \<Rightarrow> pump cfg net sched (Suc k) [(sig, AtWait n)] (on_error rpc sig n msg w)
      | Returned (Some obj) \<Rightarrow> Some (finish sig (Inr obj) (on_success rpc sig obj w))
      | Returned None \<Rightarrow>
          pump cfg net sched (Suc k) [(sig, AtWait n)]
            (w\<lparr>waits := waits w @ [backoff_ms False n]\<rparr>))"
  by (subst pump_single)
    (simp add: pump_AtResult split: option.splits prod.splits response.splits)

lemma pump_AtWait:
  "pump cfg net sched k [(sig, AtWait n)] w =
     (if n < MAX_RETRIES cfg then
        (case nextRpc cfg w of
           (rpc, w1) \<Rightarrow> pump cfg net sched (Suc k) [(sig, AtNextRpc (Suc n) rpc)] w1)
      else Some (finish sig (Inl (FetchFailed sig (MAX_RETRIES cfg))) w))"
  by (subst pump_single) (simp add: enter_loop_def pump_AtResult split: prod.splits)

lemma pump_fetch_loop:
  "pump cfg net sched k [(sig, AtWait a)] w =
     Some (case fetch_loop cfg net sig a w of (r, w') \<Rightarrow> finish sig r w')"
proof (induction cfg net sig a w arbitrary: k rule: fetch_loop.induct)
  case (1 cfg net sig attempt w)
  show ?case
  proof (cases "attempt < MAX_RETRIES cfg")
    case False
    then show ?thesis
      by (subst fetch_loop.simps) (simp add: pump_AtWait)
  next
    case True
    obtain r w1 where a: "attempt_once cfg net sig (Suc attempt) w = (r, w1)"
      by (cases "attempt_once cfg net sig (Suc attempt) w")
    show ?thesis
    proof (cases r)
      case (Some res)
      with a True show ?thesis
        by (subst fetch_loop.simps, subst pump_AtWait)
          (auto simp: pump_AtNextRpc pump_AtParsed pump_AtRaw attempt_once_def
            split: prod.splits option.splits response.splits)
    next
      case None
      with a True have ih: "\<And>k. pump cfg net sched k [(sig, AtWait (Suc attempt))] w1 =
          Some (case fetch_loop cfg net sig (Suc attempt) w1 of (r, w') \<Rightarrow> finish sig r w')"
        using 1 by simp
      from None a True show ?thesis
        by (subst fetch_loop.simps, subst pump_AtWait)
          (auto simp: pump_AtNextRpc pump_AtParsed pump_AtRaw attempt_once_def ih
            split: prod.splits option.splits response.splits)
    qed
  qed
qed

lemma pump_single_any:
  "pump cfg net sched k [(sig, p)] w = pump cfg net sched' k' [(sig, p)] w"
proof (induction "rank cfg p" arbitrary: p w k k' rule: less_induct)
  case less
  obtain p' w' where s: "task_step cfg net sig p w = (p', w')"
    by (cases "task_step cfg net sig p w")
  show ?case
  proof (cases "p' = Over")
    case True
    with s show ?thesis unfolding pump_single[of _ _ _ _ sig p] by simp
  next
    case False
    with s have "p \<noteq> Over" by auto
    from task_step_frame[OF s this] have "rank cfg p' < rank cfg p" by simp
    from less[OF this, of "Suc k" w' "Suc k'"] s False show ?thesis
      unfolding pump_single[of _ _ _ _ sig p] by simp
  qed
qed

lemma single_call:
  "run_batch cfg net sched [sig] w = Some (processSig cfg net sig w)"
proof (cases "cache w sig")
  case (Some obj)
  then show ?thesis
    by (simp add: run_batch_def processSig_def Let_def live_def pump.simps[of _ _ _ _ "[]"])
next
  case None
  let ?w0 = "w\<lparr>started := started w @ [sig]\<rparr>"
  have p: "pump cfg net sched 0 [(sig, AtWait 0)] ?w0 =
      Some (case fetch_loop cfg net sig 0 ?w0 of (r, w') \<Rightarrow> finish sig r w')"
    by (rule pump_fetch_loop)
  obtain p1 w1 where e: "enter_loop cfg sig 0 ?w0 = (p1, w1)"
    by (cases "enter_loop cfg sig 0 ?w0")
  from enter_loop_frame[OF e] have o: "p1 \<noteq> Over" by simp
  have "pump cfg net sched 0 [(sig, AtWait 0)] ?w0 = pump cfg net sched (Suc 0) [(sig, p1)] w1"
    using e o by (subst pump_single) simp
  with p have "pump cfg net sched 0 [(sig, p1)] w1 =
      Some (case fetch_loop cfg net sig 0 ?w0 of (r, w') \<Rightarrow> finish sig r w')"
    using pump_single_any[of cfg net sched 0 sig p1 w1 sched "Suc 0"] by simp
  with e o None show ?thesis
    by (simp add: run_batch_def processSig_def Let_def live_def fetchParsedTx_def)
qed

text \<open>With windows of one identifier the calls return in the order of the list.\<close>

lemma run_loop_sequential:
  assumes "CONCURRENCY cfg = Suc 0"
  shows "\<exists>w'. run_loop cfg net sched sigs i w = Some w' \<and>
           processed w' = processed w @ drop i sigs"
proof -
  from assms have "0 < CONCURRENCY cfg" by simp
  from run_loop_total[OF this, of net sched sigs i w] obtain w' ps where
    r: "run_loop cfg net sched sigs i w = Some w'" "processed w' = processed w @ ps"
      "map mset (windows (CONCURRENCY cfg) ps) = map mset (windows (CONCURRENCY cfg) (drop i sigs))"
    by blast
  from r(3) assms have "ps = drop i sigs" by (simp add: windows_one)
  with r show ?thesis by simp
qed

section \<open>The claims\<close>

text \<open>
  C1. Account roles from the index-based encoding, on the example of the specification
  (two required signatures, one read-only signed and one read-only unsigned account, five
  account keys): the claim is that the references at indices 0 and 1 are signers and those
  at indices 0, 2 and 3 are writable. The normalizer marks indices 0 and 1 as signers, as
  claimed, but it marks indices 0, 1 and 2 as writable: it compares the index with the
  number of writable accounts, so the read-only signed account at index 1 comes out
  writable and the writable unsigned account at index 3 read-only.
\<close>

theorem header_example_roles:
  "decompileToTS ''sig'' header_example_tx =
     Inr (Some (header_example_result (header_example_keys True False False))) \<and>
   map isSigner (header_example_keys True False False) = [True, True, False, False, False] \<and>
   map isWritable (header_example_keys True False False) = [True, True, True, False, False]"
  by (simp add: header_example_eval) (simp add: header_example_keys_def)

text \<open>
  C2. The claim is that \<^verbatim>\<open>uniqueAccounts\<close> is exactly the set of addresses that occur as a
  program id or as an account in the instruction list. The normalizer adds the program id
  of a compute-budget instruction to \<^verbatim>\<open>uniqueAccounts\<close> and then leaves the instruction
  out of the list, so the set can hold one address more. What holds: \<^verbatim>\<open>uniqueAccounts\<close>
  is the set of the addresses of the instruction list, together with the compute-budget
  program id when a raw instruction resolves to it.
\<close>

theorem uniqueAccounts_characterised:
  assumes "decompileToTS sig p = Inr (Some r)"
  shows "set (ts_accounts r) =
           addresses_of (ts_instructions r) \<union>
           budget_seen (accountKeys_of p) (instructions_of p)"
proof -
  from assms obtain st where
    l: "loop (message_of p) (accountKeys_of p) (instructions_of p) init_state = Inr st"
    and r: "r = \<lparr>kind = kind_of (detailedInstructions st), ts_sig = sig,
              ts_instructions = detailedInstructions st,
              ts_accounts = uniqueAccounts st, ts_computeBudget = computeBudget st\<rparr>"
    and "instructions_of p \<noteq> []"
    by (rule decompileToTS_SomeD)
  have "set (uniqueAccounts init_state) =
          addresses_of (detailedInstructions init_state) \<union> {}"
    by (simp add: init_state_def addresses_of_def)
  from loop_accounts[OF l this] show ?thesis by (simp add: r)
qed

theorem uniqueAccounts_characterised_witness:
  "decompileToTS ''sig'' budget_transfer_tx = Inr (Some budget_transfer_result) \<and>
   set (ts_accounts budget_transfer_result) =
     addresses_of (ts_instructions budget_transfer_result) \<union>
     budget_seen (accountKeys_of budget_transfer_tx) (instructions_of budget_transfer_tx) \<and>
   budget_seen (accountKeys_of budget_transfer_tx) (instructions_of budget_transfer_tx) =
     {COMPUTE_BUDGET_PROGRAM}"
proof -
  have "budget_seen (accountKeys_of budget_transfer_tx) (instructions_of budget_transfer_tx) =
          {COMPUTE_BUDGET_PROGRAM}"
    by (simp add: budget_seen_def normalizer_defs example_defs program_ids)
  with uniqueAccounts_characterised[OF budget_transfer_eval] budget_transfer_eval
  show ?thesis by simp
qed

theorem uniqueAccounts_holds_budget_program:
  "decompileToTS ''sig'' budget_transfer_tx = Inr (Some budget_transfer_result) \<and>
   COMPUTE_BUDGET_PROGRAM \<in> set (ts_accounts budget_transfer_result) \<and>
   COMPUTE_BUDGET_PROGRAM \<notin> addresses_of (ts_instructions budget_transfer_result) \<and>
   set (ts_accounts budget_transfer_result) \<noteq>
     addresses_of (ts_instructions budget_transfer_result)"
proof -
  have a: "COMPUTE_BUDGET_PROGRAM \<in> set (ts_accounts budget_transfer_result)"
    by (simp add: budget_transfer_result_def)
  have b: "COMPUTE_BUDGET_PROGRAM \<notin> addresses_of (ts_instructions budget_transfer_result)"
    by (simp add: budget_transfer_result_def transfer_instruction_def addresses_of_def
        program_ids)
  from a b budget_transfer_eval show ?thesis by metis
qed

text \<open>
  C3. The claim is that the normalizer returns null exactly when the raw transaction has
  no instructions, and that a transaction it returns therefore has a non-empty instruction
  list, so that the classifier never sees the empty list. The first half holds. The second
  does not: a compute-budget instruction and an instruction whose program id does not
  resolve leave no canonical instruction behind. What holds: null is returned exactly for
  a raw transaction without instructions; the instruction list of a returned transaction is
  empty exactly when no raw instruction resolves to a program other than the compute-budget
  program; and the empty list is classified \<^verbatim>\<open>complex\<close>.
\<close>

theorem null_iff_no_instructions:
  "(decompileToTS sig p = Inr None \<longleftrightarrow> instructions_of p = []) \<and>
   (decompileToTS sig p = Inr (Some r) \<longrightarrow>
      (ts_instructions r = [] \<longleftrightarrow>
         filter (acted (accountKeys_of p)) (instructions_of p) = []) \<and>
      (ts_instructions r = [] \<longrightarrow> kind r = ''complex''))"
proof (intro conjI impI)
  show "decompileToTS sig p = Inr None \<longleftrightarrow> instructions_of p = []"
    by (auto simp: decompileToTS_def Let_def split: sum.splits)
next
  assume d: "decompileToTS sig p = Inr (Some r)"
  from instruction_count[OF d]
  show "ts_instructions r = [] \<longleftrightarrow>
          filter (acted (accountKeys_of p)) (instructions_of p) = []"
    by (metis length_0_conv)
next
  assume d: "decompileToTS sig p = Inr (Some r)" and e: "ts_instructions r = []"
  from d obtain st where
    "loop (message_of p) (accountKeys_of p) (instructions_of p) init_state = Inr st"
    and r: "r = \<lparr>kind = kind_of (detailedInstructions st), ts_sig = sig,
              ts_instructions = detailedInstructions st,
              ts_accounts = uniqueAccounts st, ts_computeBudget = computeBudget st\<rparr>"
    and "instructions_of p \<noteq> []"
    by (rule decompileToTS_SomeD)
  from e show "kind r = ''complex''" by (simp add: r kind_of_def)
qed

theorem null_iff_no_instructions_witness:
  "instructions_of empty_tx = [] \<and> decompileToTS ''sig'' empty_tx = Inr None \<and>
   decompileToTS ''sig'' budget_only_tx = Inr (Some budget_only_result) \<and>
   ts_instructions budget_only_result = [] \<and>
   filter (acted (accountKeys_of budget_only_tx)) (instructions_of budget_only_tx) = [] \<and>
   kind budget_only_result = ''complex''"
proof -
  have e: "instructions_of empty_tx = []"
    by (simp add: instructions_of_def message_of_def empty_tx_def bare_tx_def)
  have b: "ts_instructions budget_only_result = []"
    by (simp add: budget_only_result_def)
  from null_iff_no_instructions[of "''sig''" empty_tx] e
    null_iff_no_instructions[of "''sig''" budget_only_tx budget_only_result]
    budget_only_eval b
  show ?thesis by simp
qed

theorem budget_only_has_no_instruction:
  "instructions_of budget_only_tx = [set_limit_instr] \<and>
   decompileToTS ''sig'' budget_only_tx = Inr (Some budget_only_result) \<and>
   ts_instructions budget_only_result = [] \<and>
   kind budget_only_result = kind_of []"
proof -
  have "instructions_of budget_only_tx = [set_limit_instr]"
    by (simp add: instructions_of_def message_of_def budget_only_tx_def bare_tx_def)
  moreover have "ts_instructions budget_only_result = []"
    and "kind budget_only_result = kind_of []"
    by (simp_all add: budget_only_result_def kind_of_def)
  ultimately show ?thesis using budget_only_eval by simp
qed

text \<open>
  C4. The claim is that the program id of an instruction is resolved by four strategies in
  order, the first match winning (an embedded program key, a string program id, the
  system-program literal for the provider's marker \<^verbatim>\<open>system\<close>, the account key at the
  embedded index), that an instruction none of them resolves is skipped, and that a string
  program id wins over an index. The order is as claimed and the string wins, but the
  source has one more strategy before it skips: the provider's program name itself, when it
  is a non-empty string. What holds: the chain has these five strategies in this order, and
  only an instruction none of them resolves is passed over, which leaves the state of the
  loop as it was.
\<close>

theorem programId_chain:
  "programId_of aks instr =
     first_match [embedded_key instr, string_tag instr, system_marker instr,
                  indexed_key aks instr, program_name instr] \<and>
   (string_tag instr = Some s \<longrightarrow> programId_of aks instr = Some s) \<and>
   (programId_of aks instr = None \<longrightarrow> step m aks instr st = Inr st)"
  by (auto simp: programId_of_def programId_fallback_def chain_defs step_def
      split: option.splits key_value.splits)

theorem programId_chain_witness:
  "string_tag tagged_indexed_instr = Some ''Prog1'' \<and>
   indexed_key [KeyString ''Other''] tagged_indexed_instr = Some ''Other'' \<and>
   programId_of [KeyString ''Other''] tagged_indexed_instr = Some ''Prog1'' \<and>
   programId_of [] no_instr = None \<and>
   step (top empty_tx) [] no_instr init_state = Inr init_state"
proof -
  have t: "string_tag tagged_indexed_instr = Some ''Prog1''"
    and i: "indexed_key [KeyString ''Other''] tagged_indexed_instr = Some ''Other''"
    by (simp_all add: chain_defs tagged_indexed_instr_def no_instr_def key_at_def)
  have n: "programId_of [] no_instr = None"
    by (simp add: programId_of_def programId_fallback_def no_instr_def)
  from programId_chain[of "[KeyString ''Other'']" tagged_indexed_instr "''Prog1''"] t
  have "programId_of [KeyString ''Other''] tagged_indexed_instr = Some ''Prog1''" by blast
  moreover from programId_chain[of "[]" no_instr _ "top empty_tx" init_state] n
  have "step (top empty_tx) [] no_instr init_state = Inr init_state" by blast
  ultimately show ?thesis using t i n by blast
qed

theorem program_name_is_not_skipped:
  "spec_chain [] named_memo_instr = None \<and>
   programId_of [] named_memo_instr = Some ''spl-memo'' \<and>
   decompileToTS ''sig'' named_memo_tx = Inr (Some named_memo_result) \<and>
   map d_programId (ts_instructions named_memo_result) = [''spl-memo'']"
proof -
  have "spec_chain [] named_memo_instr = None"
    and "programId_of [] named_memo_instr = Some ''spl-memo''"
    by (simp_all add: programId_of_def programId_fallback_def chain_defs
        named_memo_instr_def no_instr_def)
  moreover have "decompileToTS ''sig'' named_memo_tx = Inr (Some named_memo_result)"
    by (simp add: normalizer_defs example_defs named_memo_tx_def named_memo_result_def
        program_ids)
  moreover have "map d_programId (ts_instructions named_memo_result) = [''spl-memo'']"
    by (simp add: named_memo_result_def)
  ultimately show ?thesis by simp
qed

text \<open>
  C5. The claim is that every classification is one of \<^verbatim>\<open>system\<close>, \<^verbatim>\<open>token\<close>, \<^verbatim>\<open>memo\<close>,
  \<^verbatim>\<open>program\<close>, \<^verbatim>\<open>multi-N\<close>, \<^verbatim>\<open>complex\<close>, \<^verbatim>\<open>unrecognized\<close>, and that a single instruction of
  the SPL token program gets the token tag. The tag the source writes for that instruction
  is \<^verbatim>\<open>spl-token\<close>, which is not in the list. What holds: every classification is in the
  list with \<^verbatim>\<open>spl-token\<close> in the place of \<^verbatim>\<open>token\<close> (and is never \<^verbatim>\<open>unrecognized\<close>), and a
  single instruction of the SPL token program is tagged \<^verbatim>\<open>spl-token\<close>.
\<close>

theorem kind_in_vocabulary:
  "kind_of ds \<in> tag_vocabulary \<and> kind_of ds \<noteq> ''unrecognized'' \<and>
   (length ds = 1 \<and> d_programId (ds ! 0) = TOKEN_PROGRAM \<longrightarrow> kind_of ds = ''spl-token'')"
  by (auto simp: kind_of_def tag_vocabulary_def Let_def token_not_system)

theorem kind_in_vocabulary_witness:
  "length [token_transfer_instruction] = 1 \<and>
   d_programId ([token_transfer_instruction] ! 0) = TOKEN_PROGRAM \<and>
   kind_of [token_transfer_instruction] = ''spl-token'' \<and>
   kind_of [token_transfer_instruction] \<in> tag_vocabulary"
proof -
  have l: "length [token_transfer_instruction] = 1" by simp
  have d: "d_programId ([token_transfer_instruction] ! 0) = TOKEN_PROGRAM"
    by (simp add: token_transfer_instruction_def)
  from kind_in_vocabulary[of "[token_transfer_instruction]"] l d show ?thesis by metis
qed

theorem token_tag_is_spl_token:
  "decompileToTS ''sig'' token_transfer_tx = Inr (Some token_transfer_result) \<and>
   kind token_transfer_result = ''spl-token'' \<and>
   kind token_transfer_result \<notin> spec_vocabulary"
proof -
  have "kind token_transfer_result = ''spl-token''"
    by (simp add: token_transfer_result_def)
  moreover have "''spl-token'' \<notin> spec_vocabulary"
    by (auto simp: spec_vocabulary_def)
  ultimately show ?thesis using token_transfer_eval by simp
qed




text \<open>
  C7. Resuming: when the resume point is in the identifier list, the run ends, and it has
  called \<^verbatim>\<open>processSig\<close> for the identifiers from the first occurrence of the resume point
  on, in the order of the list, and for nothing else. Every one of these calls has
  returned; the calls of one window return in an order that the program does not fix
  (lemma \<open>cached_overtakes\<close>), so the identifiers are reported window by window, each
  window up to order. When the resume point is not in the list, the run stops with
  \<open>StartSignatureNotFound\<close> in the state it started in, so no identifier was processed.
  For the list a, b, c, d and the resume point c the calls are c, d; the resume point z
  fails. This holds for every network and every schedule of the suspended calls.
\<close>

theorem resume_from_signature:
  assumes "0 < CONCURRENCY cfg" and "s \<noteq> []"
  shows "(indexOf allSigs s = Some k \<longrightarrow>
            (\<exists>w' ps. run cfg net sched (Some s) allSigs w = Some (None, w') \<and>
               started w' = started w @ drop k allSigs \<and>
               processed w' = processed w @ ps \<and>
               map mset (windows (CONCURRENCY cfg) ps) =
                 map mset (windows (CONCURRENCY cfg) (drop k allSigs)))) \<and>
         (s \<notin> set allSigs \<longrightarrow>
            run cfg net sched (Some s) allSigs w = Some (Some (StartSignatureNotFound s), w))"
proof (intro conjI impI)
  assume k: "indexOf allSigs s = Some k"
  from run_loop_total[OF assms(1), of net sched "drop k allSigs" 0 w] obtain w' ps where
    "run_loop cfg net sched (drop k allSigs) 0 w = Some w'"
    "started w' = started w @ drop k allSigs"
    "processed w' = processed w @ ps"
    "map mset (windows (CONCURRENCY cfg) ps) =
       map mset (windows (CONCURRENCY cfg) (drop k allSigs))"
    by auto
  with k assms(2)
  show "\<exists>w' ps. run cfg net sched (Some s) allSigs w = Some (None, w') \<and>
          started w' = started w @ drop k allSigs \<and>
          processed w' = processed w @ ps \<and>
          map mset (windows (CONCURRENCY cfg) ps) =
            map mset (windows (CONCURRENCY cfg) (drop k allSigs))"
    by (simp add: run_def)
next
  assume "s \<notin> set allSigs"
  then have "indexOf allSigs s = None" by (simp add: indexOf_None)
  with assms(2) show "run cfg net sched (Some s) allSigs w =
      Some (Some (StartSignatureNotFound s), w)"
    by (simp add: run_def)
qed

theorem resume_from_signature_witness:
  "(\<exists>w'. run default_config dead_network (\<lambda>i k. 0) (Some ''c'') [''a'', ''b'', ''c'', ''d'']
            initial_world = Some (None, w') \<and>
          started w' = [''c'', ''d''] \<and> mset (processed w') = mset [''c'', ''d'']) \<and>
   run default_config dead_network (\<lambda>i k. 0) (Some ''z'') [''a'', ''b'', ''c'', ''d'']
     initial_world = Some (Some (StartSignatureNotFound ''z''), initial_world) \<and>
   started initial_world = [] \<and> processed initial_world = []"
proof -
  have c: "0 < CONCURRENCY default_config" by (simp add: default_config_def)
  have i: "indexOf [''a'', ''b'', ''c'', ''d''] ''c'' = Some 2" by simp
  have z: "''z'' \<notin> set [''a'', ''b'', ''c'', ''d'']" by simp
  have p: "processed initial_world = []" "started initial_world = []"
    by (simp_all add: processed_def initial_world_def List.map_filter_def)
  from resume_from_signature[OF c, of "''c''" "[''a'', ''b'', ''c'', ''d'']" 2 dead_network
      "\<lambda>i k. 0" initial_world] i p
  obtain w' ps where r: "run default_config dead_network (\<lambda>i k. 0) (Some ''c'')
        [''a'', ''b'', ''c'', ''d''] initial_world = Some (None, w')"
    "started w' = [''c'', ''d'']" "processed w' = ps"
    "map mset (windows (CONCURRENCY default_config) ps) =
       map mset (windows (CONCURRENCY default_config) [''c'', ''d''])"
    by auto
  from windows_mset[OF c r(4)] r
  have 1: "\<exists>w'. run default_config dead_network (\<lambda>i k. 0) (Some ''c'')
        [''a'', ''b'', ''c'', ''d''] initial_world = Some (None, w') \<and>
      started w' = [''c'', ''d''] \<and> mset (processed w') = mset [''c'', ''d'']"
    by auto
  from resume_from_signature[OF c, of "''z''" "[''a'', ''b'', ''c'', ''d'']" _ dead_network
      "\<lambda>i k. 0" initial_world] z
  have "run default_config dead_network (\<lambda>i k. 0) (Some ''z'') [''a'', ''b'', ''c'', ''d'']
      initial_world = Some (Some (StartSignatureNotFound ''z''), initial_world)" by simp
  with 1 p show ?thesis by simp
qed

text \<open>
  C8. For an identifier that is in the cache, \<^verbatim>\<open>fetchParsedTx\<close> returns the cached
  transaction and leaves the whole state as it was: no endpoint is taken from the pool
  (\<open>rpcIndex\<close> and \<open>rpcStats\<close> are unchanged) and no request is sent.
\<close>

theorem cached_fetch_sends_nothing:
  assumes "cache w sig = Some obj"
  shows "fetchParsedTx cfg net sig w = (Inr obj, w) \<and>
         requests_sent (snd (fetchParsedTx cfg net sig w)) = requests_sent w \<and>
         rpcIndex (snd (fetchParsedTx cfg net sig w)) = rpcIndex w \<and>
         rpcStats (snd (fetchParsedTx cfg net sig w)) = rpcStats w"
  using assms by (simp add: fetchParsedTx_def)

theorem cached_fetch_sends_nothing_witness:
  "cache cached_world ''sigA'' = Some budget_transfer_tx \<and>
   fetchParsedTx default_config dead_network ''sigA'' cached_world =
     (Inr budget_transfer_tx, cached_world) \<and>
   requests_sent (snd (fetchParsedTx default_config dead_network ''sigA'' cached_world)) = 0"
proof -
  have c: "cache cached_world ''sigA'' = Some budget_transfer_tx"
    by (simp add: cached_world_def)
  have "requests_sent cached_world = 0"
    by (simp add: cached_world_def initial_world_def)
  with cached_fetch_sends_nothing[OF c, of default_config dead_network] c
  show ?thesis by simp
qed





text \<open>
  C10. The claim is that the two copies of \<^verbatim>\<open>decompileToTS\<close> in the repository compute
  the same canonical instruction list for every raw transaction. They do not: the copy in
  src/unnamed/part\_000 keeps an instruction whose program id does not resolve, under the
  program id \<^verbatim>\<open>unknown\<close>, where the other passes it over; it adds the number of signers
  to \<^verbatim>\<open>numWritable\<close>; and it takes every program id that contains \<^verbatim>\<open>Memo\<close> for a memo
  program. What holds: the two copies return the same result for every raw transaction in
  which each instruction has a program id that resolves and, unless that is the
  compute-budget program, the id contains \<^verbatim>\<open>Memo\<close> only if it is one of the two memo
  program ids and the instruction lists no index of an account key among the
  \<^verbatim>\<open>numRequiredSignatures\<close> indices that start at \<^verbatim>\<open>accountKeys.length\<close> minus the two
  read-only counts of the header. On these indices, and on no other, the two copies set
  the writable flag differently (lemmas \<open>writable_band_iff\<close> and \<open>index_keys_differ\<close>).
\<close>

theorem variants_agree:
  assumes "list_all (variants_agree_on (message_of p) (accountKeys_of p)) (instructions_of p)"
  shows "decompileToTS_part000 sig p = decompileToTS sig p"
proof (cases "loop (message_of p) (accountKeys_of p) (instructions_of p) init_state")
  case (Inl e)
  with loop_agree[OF assms, of init_state] show ?thesis
    by (simp add: decompileToTS_part000_def decompileToTS_def Let_def)
next
  case (Inr st)
  have "list_all (\<lambda>d. memo_recognised (d_programId d)) (detailedInstructions init_state)"
    by (simp add: init_state_def)
  from loop_programIds[OF Inr this assms]
  have "kind_of_part000 (detailedInstructions st) = kind_of (detailedInstructions st)"
    by (rule kind_agree)
  with Inr loop_agree[OF assms, of init_state] show ?thesis
    by (simp add: decompileToTS_part000_def decompileToTS_def Let_def)
qed

theorem variants_agree_witness:
  "list_all (variants_agree_on (message_of memo_note_tx) (accountKeys_of memo_note_tx))
     (instructions_of memo_note_tx) \<and>
   writable_band (message_of memo_note_tx) (accountKeys_of memo_note_tx) 2 \<and>
   decompileToTS ''sig'' memo_note_tx = Inr (Some memo_note_result) \<and>
   decompileToTS_part000 ''sig'' memo_note_tx = Inr (Some memo_note_result)"
proof -
  have a: "list_all (variants_agree_on (message_of memo_note_tx) (accountKeys_of memo_note_tx))
      (instructions_of memo_note_tx)"
    by (simp add: variants_agree_on_def memo_recognised_def outside_band_def writable_band_def
        normalizer_defs no_instr_def bare_tx_def memo_note_tx_def program_ids)
  have b: "writable_band (message_of memo_note_tx) (accountKeys_of memo_note_tx) 2"
    by (simp add: writable_band_def normalizer_defs no_instr_def bare_tx_def memo_note_tx_def)
  from variants_agree[OF a, of "''sig''"] memo_note_eval a b show ?thesis by simp
qed

theorem variants_differ:
  "decompileToTS ''sig'' header_example_tx =
     Inr (Some (header_example_result (header_example_keys True False False))) \<and>
   decompileToTS_part000 ''sig'' header_example_tx =
     Inr (Some (header_example_result (header_example_keys True True True))) \<and>
   ts_instructions (header_example_result (header_example_keys True False False)) \<noteq>
     ts_instructions (header_example_result (header_example_keys True True True)) \<and>
   decompileToTS ''sig'' unresolved_then_transfer_tx =
     Inr (Some unresolved_then_transfer_result) \<and>
   decompileToTS_part000 ''sig'' unresolved_then_transfer_tx =
     Inr (Some unresolved_then_transfer_result_part000) \<and>
   ts_instructions unresolved_then_transfer_result \<noteq>
     ts_instructions unresolved_then_transfer_result_part000 \<and>
   decompileToTS ''sig'' memo_like_tx =
     Inr (Some (memo_like_result ''program'' ''Program MemoFake... instruction'')) \<and>
   decompileToTS_part000 ''sig'' memo_like_tx =
     Inr (Some (memo_like_result ''memo'' ''Memo'')) \<and>
   ts_instructions (memo_like_result ''program'' ''Program MemoFake... instruction'') \<noteq>
     ts_instructions (memo_like_result ''memo'' ''Memo'')"
proof -
  have "ts_instructions (header_example_result (header_example_keys True False False)) \<noteq>
     ts_instructions (header_example_result (header_example_keys True True True))"
    by (simp add: header_example_result_def header_example_keys_def)
  moreover have "ts_instructions unresolved_then_transfer_result \<noteq>
     ts_instructions unresolved_then_transfer_result_part000"
    by (simp add: unresolved_then_transfer_result_def
        unresolved_then_transfer_result_part000_def)
  moreover have
    "ts_instructions (memo_like_result ''program'' ''Program MemoFake... instruction'') \<noteq>
     ts_instructions (memo_like_result ''memo'' ''Memo'')"
    by (simp add: memo_like_result_def)
  ultimately show ?thesis
    using header_example_eval header_example_eval_part000
      unresolved_then_transfer_eval unresolved_then_transfer_eval_part000
      memo_like_eval memo_like_eval_part000
    by (simp add: unresolved_then_transfer_result_def
        unresolved_then_transfer_result_part000_def)
qed

end
